theory Spec2Isabelle
  imports Complex_Main "HOL-Library.AList"
begin

section \<open>Data model\<close>

text \<open>
  The route receives a JSON body. A JSON number is the rational value of the parsed
  double (a literal too large for a double, parsed as \<open>Infinity\<close>, is left out: the
  two size schemas refuse it like any number above 20); a string is the list of bytes
  that \<open>Buffer.from\<close> gives for it, its UTF-8 encoding, so the empty string is the
  empty list; an object is the list of its entries, one per key, read with \<open>map_of\<close>.
  An absent key (JavaScript \<open>undefined\<close>) is \<open>None\<close> of type \<open>json option\<close>.
\<close>

datatype json =
    JNull
  | JBool bool
  | JNum rat
  | JStr string
  | JArr "json list"
  | JObj "(string \<times> json) list"

text \<open>
  A validation issue carries the path of the offending field and the kind of
  constraint violated. \<open>ZodError.message\<close> is the JSON rendering of the issue list,
  so the list is what the model keeps.
\<close>

datatype path_elem = Key string | Idx nat

datatype issue_code =
    Required
  | InvalidType
  | InvalidEnumValue
  | TooSmall
  | TooBig
  | NotInteger
  | InvalidEmail
  | Custom string

datatype issue = Issue (path: "path_elem list") (code: issue_code)

text \<open>
  What a \<open>throw\<close> or a rejected promise carries: a \<open>ZodError\<close>, any other
  \<open>Error\<close> with its message, or a value that is not an \<open>Error\<close>.
\<close>

datatype thrown = ZodError "issue list" | Error string | NonError

section \<open>Schemas\<close>

text \<open>
  The result of running a schema: the issues found, and the parsed value unless the
  input had the wrong type (the parse was aborted). A failed check (\<open>min\<close>,
  \<open>max\<close>, \<open>int\<close>, \<open>email\<close>, \<open>refine\<close>) adds an issue and keeps the value, so
  later checks and refinements still run; a wrong type stops them.
\<close>

type_synonym 'a parsed = "issue list \<times> 'a option"

definition z_parse :: "'a parsed \<Rightarrow> thrown + 'a" where
  "z_parse r = (case r of ([], Some v) \<Rightarrow> Inr v | (is, _) \<Rightarrow> Inl (ZodError is))"

definition z_map :: "('a \<Rightarrow> 'b) \<Rightarrow> 'a parsed \<Rightarrow> 'b parsed" where
  "z_map f r = (fst r, map_option f (snd r))"

definition z_both :: "'a parsed \<Rightarrow> 'b parsed \<Rightarrow> ('a \<times> 'b) parsed" where
  "z_both a b =
     (fst a @ fst b,
      case snd a of None \<Rightarrow> None
      | Some x \<Rightarrow> (case snd b of None \<Rightarrow> None | Some y \<Rightarrow> Some (x, y)))"

definition z_check :: "('a \<Rightarrow> bool) \<Rightarrow> issue \<Rightarrow> 'a parsed \<Rightarrow> 'a parsed" where
  "z_check ok iss r =
     (case snd r of None \<Rightarrow> r
      | Some v \<Rightarrow> if ok v then r else (fst r @ [iss], Some v))"

definition z_optional :: "(json option \<Rightarrow> 'a parsed) \<Rightarrow> json option \<Rightarrow> 'a option parsed" where
  "z_optional f j = (case j of None \<Rightarrow> ([], Some None) | Some v \<Rightarrow> z_map Some (f (Some v)))"

definition z_string :: "path_elem list \<Rightarrow> json option \<Rightarrow> string parsed" where
  "z_string p j =
     (case j of None \<Rightarrow> ([Issue p Required], None)
      | Some (JStr s) \<Rightarrow> ([], Some s)
      | Some _ \<Rightarrow> ([Issue p InvalidType], None))"

definition z_string_min1 :: "path_elem list \<Rightarrow> json option \<Rightarrow> string parsed" where
  "z_string_min1 p j = z_check (\<lambda>s. 1 \<le> length s) (Issue p TooSmall) (z_string p j)"

definition z_string_email :: "(string \<Rightarrow> bool) \<Rightarrow> path_elem list \<Rightarrow> json option \<Rightarrow> string parsed" where
  "z_string_email is_email p j = z_check is_email (Issue p InvalidEmail) (z_string p j)"

definition z_boolean :: "path_elem list \<Rightarrow> json option \<Rightarrow> bool parsed" where
  "z_boolean p j =
     (case j of None \<Rightarrow> ([Issue p Required], None)
      | Some (JBool b) \<Rightarrow> ([], Some b)
      | Some _ \<Rightarrow> ([Issue p InvalidType], None))"

definition z_number :: "path_elem list \<Rightarrow> json option \<Rightarrow> rat parsed" where
  "z_number p j =
     (case j of None \<Rightarrow> ([Issue p Required], None)
      | Some (JNum r) \<Rightarrow> ([], Some r)
      | Some _ \<Rightarrow> ([Issue p InvalidType], None))"

text \<open>\<open>z.number().int().positive().max(20)\<close>: the three checks in the order written.\<close>

definition is_integer :: "rat \<Rightarrow> bool" where
  "is_integer r = (of_int \<lfloor>r\<rfloor> = r)"

definition z_number_int_positive_max20 :: "path_elem list \<Rightarrow> json option \<Rightarrow> rat parsed" where
  "z_number_int_positive_max20 p j =
     z_check (\<lambda>r. r \<le> 20) (Issue p TooBig)
       (z_check (\<lambda>r. 0 < r) (Issue p TooSmall)
          (z_check is_integer (Issue p NotInteger) (z_number p j)))"

text \<open>\<open>z.array(z.string())\<close>: every element is parsed, at the path of its index.\<close>

fun z_elements :: "path_elem list \<Rightarrow> nat \<Rightarrow> json list \<Rightarrow> string list parsed" where
  "z_elements p i [] = ([], Some [])"
| "z_elements p i (x # xs) =
     z_map (\<lambda>(s, ss). s # ss) (z_both (z_string (p @ [Idx i]) (Some x)) (z_elements p (Suc i) xs))"

definition z_array_string :: "path_elem list \<Rightarrow> json option \<Rightarrow> string list parsed" where
  "z_array_string p j =
     (case j of None \<Rightarrow> ([Issue p Required], None)
      | Some (JArr xs) \<Rightarrow> z_elements p 0 xs
      | Some _ \<Rightarrow> ([Issue p InvalidType], None))"

text \<open>
  \<open>z.object({...})\<close>: the input must be an object; the fields of the shape are read by
  key (unknown keys are dropped) and each is parsed.
\<close>

definition z_object ::
  "path_elem list \<Rightarrow> ((string \<Rightarrow> json option) \<Rightarrow> 'a parsed) \<Rightarrow> json option \<Rightarrow> 'a parsed" where
  "z_object p fields j =
     (case j of None \<Rightarrow> ([Issue p Required], None)
      | Some (JObj kvs) \<Rightarrow> fields (map_of kvs)
      | Some _ \<Rightarrow> ([Issue p InvalidType], None))"

text \<open>JavaScript truthiness of an optional string: present and not empty.\<close>

definition truthy :: "string option \<Rightarrow> bool" where
  "truthy s = (case s of None \<Rightarrow> False | Some v \<Rightarrow> v \<noteq> [])"

subsection \<open>The request envelope\<close>

record request =
  action :: string
  payload :: "json option"

definition actions :: "string list" where
  "actions = [''gmail.listMessages'', ''gmail.sendMessage'', ''notion.listPages'', ''notion.createPage'']"

definition z_enum :: "string list \<Rightarrow> path_elem list \<Rightarrow> json option \<Rightarrow> string parsed" where
  "z_enum tags p j =
     (case j of None \<Rightarrow> ([Issue p Required], None)
      | Some (JStr s) \<Rightarrow> if s \<in> set tags then ([], Some s) else ([Issue p InvalidEnumValue], None)
      | Some _ \<Rightarrow> ([Issue p InvalidType], None))"

text \<open>\<open>z.record(z.string(), z.any())\<close>: any object, its entries kept as they are.\<close>

definition z_record_any :: "path_elem list \<Rightarrow> json option \<Rightarrow> json parsed" where
  "z_record_any p j =
     (case j of None \<Rightarrow> ([Issue p Required], None)
      | Some (JObj kvs) \<Rightarrow> ([], Some (JObj kvs))
      | Some _ \<Rightarrow> ([Issue p InvalidType], None))"

definition requestSchema :: "json option \<Rightarrow> request parsed" where
  "requestSchema =
     z_object []
       (\<lambda>get. z_map (\<lambda>(a, p). \<lparr>action = a, payload = p\<rparr>)
          (z_both (z_enum actions [Key ''action''] (get ''action''))
                  (z_optional (z_record_any [Key ''payload'']) (get ''payload''))))"

subsection \<open>The environment\<close>

text \<open>\<open>process.env\<close>: a variable is a string or is not set.\<close>

type_synonym env = "string \<rightharpoonup> string"

definition z_env_min1 :: "env \<Rightarrow> string \<Rightarrow> string parsed" where
  "z_env_min1 e k = z_string_min1 [Key k] (map_option JStr (e k))"

record gmail_env =
  GOOGLE_CLIENT_ID :: string
  GOOGLE_CLIENT_SECRET :: string
  GOOGLE_REFRESH_TOKEN :: string
  GOOGLE_REDIRECT_URI :: string

definition gmailEnvSchema :: "env \<Rightarrow> gmail_env parsed" where
  "gmailEnvSchema e =
     z_map (\<lambda>(i, s, t, u). \<lparr>GOOGLE_CLIENT_ID = i, GOOGLE_CLIENT_SECRET = s,
                            GOOGLE_REFRESH_TOKEN = t, GOOGLE_REDIRECT_URI = u\<rparr>)
       (z_both (z_env_min1 e ''GOOGLE_CLIENT_ID'')
          (z_both (z_env_min1 e ''GOOGLE_CLIENT_SECRET'')
             (z_both (z_env_min1 e ''GOOGLE_REFRESH_TOKEN'')
                     (z_env_min1 e ''GOOGLE_REDIRECT_URI''))))"

record notion_env =
  NOTION_API_KEY :: string
  NOTION_DATABASE_ID :: string
  NOTION_DATA_SOURCE_ID :: string

definition notionEnvSchema :: "env \<Rightarrow> notion_env parsed" where
  "notionEnvSchema e =
     z_map (\<lambda>(k, d, s). \<lparr>NOTION_API_KEY = k, NOTION_DATABASE_ID = d, NOTION_DATA_SOURCE_ID = s\<rparr>)
       (z_both (z_env_min1 e ''NOTION_API_KEY'')
          (z_both (z_env_min1 e ''NOTION_DATABASE_ID'')
                  (z_env_min1 e ''NOTION_DATA_SOURCE_ID'')))"

definition getGmailClient :: "env \<Rightarrow> thrown + gmail_env" where
  "getGmailClient e =
     (case gmailEnvSchema e of
        ([], Some v) \<Rightarrow> Inr v
      | _ \<Rightarrow> Inl (Error ''Missing required Gmail environment variables. Ensure GOOGLE_CLIENT_ID, GOOGLE_CLIENT_SECRET, GOOGLE_REFRESH_TOKEN, and GOOGLE_REDIRECT_URI are set.''))"

definition getNotionClient :: "env \<Rightarrow> thrown + string" where
  "getNotionClient e =
     (case notionEnvSchema e of
        ([], Some v) \<Rightarrow> Inr (NOTION_API_KEY v)
      | _ \<Rightarrow> Inl (Error ''Missing required Notion environment variables. Ensure NOTION_API_KEY and NOTION_DATABASE_ID are set.''))"

section \<open>External services\<close>

text \<open>
  The Gmail and Notion SDK calls are parameters of the model: each takes the request
  the handler builds and either rejects (\<open>Inl\<close>) or resolves with a response of the
  shape the SDK declares. Optional response fields are options (\<open>None\<close> for
  \<open>undefined\<close> or \<open>null\<close>).
\<close>

record list_request =
  lr_maxResults :: rat
  lr_labelIds :: "string list option"
  lr_includeSpamTrash :: "bool option"

record message_ref =
  m_id :: "string option"
  m_threadId :: "string option"

record header =
  h_name :: "string option"
  h_value :: "string option"

record get_response =
  g_headers :: "header list option"
  g_snippet :: "string option"

record text_filter =
  f_property :: string
  f_contains :: string

record query_request =
  q_data_source_id :: string
  q_page_size :: rat
  q_filter :: "text_filter option"

record page =
  p_id :: string
  p_url :: string
  p_created_time :: string
  p_last_edited_time :: string
  p_properties :: json

text \<open>
  An item of a query result, by what \<open>isFullPageOrDataSource\<close> and the \<open>object\<close>
  tag tell apart: a full page, a partial page, a full or a partial data source.
\<close>

datatype query_item =
    FullPage page
  | PartialPage string
  | FullDataSource string
  | PartialDataSource string

record create_request =
  c_database_id :: string
  c_title :: string
  c_paragraph :: string

text \<open>The response of \<open>pages.create\<close>: the key \<open>url\<close> is there (a string) or not.\<close>

record create_response =
  cr_id :: string
  cr_url :: "string option"

record services =
  messages_list :: "list_request \<Rightarrow> thrown + message_ref list option"
  messages_get :: "string \<Rightarrow> thrown + get_response"
  messages_send :: "string \<Rightarrow> thrown + json"
  dataSources_query :: "query_request \<Rightarrow> thrown + query_item list"
  pages_create :: "create_request \<Rightarrow> thrown + create_response"

text \<open>
  The trace of what a handler did to the outside: the construction of a client and
  every SDK call, in the order they are issued.
\<close>

datatype event =
    NewGmailClient gmail_env
  | MessagesList list_request
  | MessagesGet string
  | MessagesSend string
  | NewNotionClient string
  | DataSourcesQuery query_request
  | PagesCreate create_request

fun is_network_call :: "event \<Rightarrow> bool" where
  "is_network_call (NewGmailClient _) = False"
| "is_network_call (NewNotionClient _) = False"
| "is_network_call _ = True"

section \<open>Handlers\<close>

record message_out =
  o_id :: string
  o_threadId :: "string option"
  o_snippet :: "string option"
  o_headers :: "(string \<times> string) list"

record page_out =
  po_id :: string
  po_url :: string
  po_createdTime :: string
  po_lastEditedTime :: string
  po_properties :: json

text \<open>
  The JSON a handler returns: \<open>{messages}\<close>, \<open>{status}\<close>, \<open>{pages}\<close> or
  \<open>{pageId, url}\<close>.
\<close>

datatype result =
    Messages "message_out list"
  | Status string
  | Pages "page_out list"
  | Created string json

subsection \<open>gmail.listMessages\<close>

record list_params =
  maxResults :: "rat option"
  labelIds :: "string list option"
  includeSpamTrash :: "bool option"

definition handleListMessages_schema :: "json option \<Rightarrow> list_params option parsed" where
  "handleListMessages_schema =
     z_optional
       (z_object []
          (\<lambda>get. z_map (\<lambda>(m, l, s). \<lparr>maxResults = m, labelIds = l, includeSpamTrash = s\<rparr>)
             (z_both (z_optional (z_number_int_positive_max20 [Key ''maxResults'']) (get ''maxResults''))
                (z_both (z_optional (z_array_string [Key ''labelIds'']) (get ''labelIds''))
                        (z_optional (z_boolean [Key ''includeSpamTrash'']) (get ''includeSpamTrash''))))))"

text \<open>
  The \<open>reduce\<close> over the headers: a header with a truthy name and value is stored
  under its name, a later one replacing an earlier one of the same name.
\<close>

definition collect_headers :: "header list \<Rightarrow> (string \<times> string) list" where
  "collect_headers hs =
     fold (\<lambda>h acc. case h_name h of None \<Rightarrow> acc
             | Some n \<Rightarrow> (case h_value h of None \<Rightarrow> acc
                 | Some v \<Rightarrow> if n \<noteq> [] \<and> v \<noteq> [] then AList.update n v acc else acc))
       hs []"

text \<open>
  The callback of \<open>messages.map\<close>: \<open>null\<close> for a message whose id is missing or
  empty, without a call; otherwise one \<open>messages.get\<close> and the reshaped entry.
\<close>

definition fetch_detail :: "services \<Rightarrow> message_ref \<Rightarrow> event list \<times> (thrown + message_out option)" where
  "fetch_detail sv m =
     (case m_id m of None \<Rightarrow> ([], Inr None)
      | Some i \<Rightarrow>
          if i = [] then ([], Inr None)
          else (case messages_get sv i of
                  Inl e \<Rightarrow> ([MessagesGet i], Inl e)
                | Inr r \<Rightarrow>
                    ([MessagesGet i],
                     Inr (Some \<lparr>o_id = i, o_threadId = m_threadId m, o_snippet = g_snippet r,
                                o_headers = (case g_headers r of None \<Rightarrow> []
                                             | Some hs \<Rightarrow> collect_headers hs)\<rparr>))))"

text \<open>
  \<open>Promise.all\<close> over the mapped callbacks: every callback is started, in listing
  order, so every call is in the trace; the results come back by position. When some
  call rejects, \<open>Promise.all\<close> rejects with the rejection that comes first in time;
  the model reports the one that is first in the listing.
\<close>

fun promise_all :: "(event list \<times> (thrown + 'a)) list \<Rightarrow> event list \<times> (thrown + 'a list)" where
  "promise_all [] = ([], Inr [])"
| "promise_all (p # ps) =
     (fst p @ fst (promise_all ps),
      case snd p of Inl e \<Rightarrow> Inl e
      | Inr v \<Rightarrow> (case snd (promise_all ps) of Inl e \<Rightarrow> Inl e | Inr vs \<Rightarrow> Inr (v # vs)))"

text \<open>\<open>.filter(Boolean)\<close> on a list of entries and nulls.\<close>

fun filter_Boolean :: "'a option list \<Rightarrow> 'a list" where
  "filter_Boolean [] = []"
| "filter_Boolean (None # ds) = filter_Boolean ds"
| "filter_Boolean (Some d # ds) = d # filter_Boolean ds"

definition handleListMessages :: "services \<Rightarrow> env \<Rightarrow> json option \<Rightarrow> event list \<times> (thrown + result)" where
  "handleListMessages sv e pl =
     (case z_parse (handleListMessages_schema pl) of
        Inl err \<Rightarrow> ([], Inl err)
      | Inr parsed \<Rightarrow>
          let params = (case parsed of
                          None \<Rightarrow> \<lparr>maxResults = None, labelIds = None, includeSpamTrash = None\<rparr>
                        | Some q \<Rightarrow> q)
          in (case getGmailClient e of
                Inl err \<Rightarrow> ([], Inl err)
              | Inr creds \<Rightarrow>
                  let req = \<lparr>lr_maxResults = (case maxResults params of None \<Rightarrow> 10 | Some n \<Rightarrow> n),
                             lr_labelIds = labelIds params,
                             lr_includeSpamTrash = includeSpamTrash params\<rparr>
                  in (case messages_list sv req of
                        Inl err \<Rightarrow> ([NewGmailClient creds, MessagesList req], Inl err)
                      | Inr response \<Rightarrow>
                          let messages = (case response of None \<Rightarrow> [] | Some ms \<Rightarrow> ms);
                              detailedMessages = promise_all (map (fetch_detail sv) messages)
                          in ([NewGmailClient creds, MessagesList req] @ fst detailedMessages,
                              case snd detailedMessages of
                                Inl err \<Rightarrow> Inl err
                              | Inr ds \<Rightarrow> Inr (Messages (filter_Boolean ds))))))"

subsection \<open>gmail.sendMessage\<close>

record send_params =
  to :: string
  subject :: string
  body :: string

text \<open>
  \<open>z.string().email()\<close> tests the string against the library's pattern for email
  addresses; the pattern is a parameter \<open>is_email\<close> of the model.
\<close>

definition handleSendMessage_schema :: "(string \<Rightarrow> bool) \<Rightarrow> json option \<Rightarrow> send_params parsed" where
  "handleSendMessage_schema is_email =
     z_object []
       (\<lambda>get. z_map (\<lambda>(t, s, b). \<lparr>to = t, subject = s, body = b\<rparr>)
          (z_both (z_string_email is_email [Key ''to''] (get ''to''))
             (z_both (z_string_min1 [Key ''subject''] (get ''subject''))
                     (z_string_min1 [Key ''body''] (get ''body'')))))"

text \<open>\<open>Array.prototype.join\<close>.\<close>

fun join :: "string \<Rightarrow> string list \<Rightarrow> string" where
  "join sep [] = []"
| "join sep [x] = x"
| "join sep (x # y # ys) = x @ sep @ join sep (y # ys)"

definition CRLF :: string where
  "CRLF = [CHR 0x0D, CHR 0x0A]"

definition rawMessage :: "send_params \<Rightarrow> string" where
  "rawMessage params =
     join CRLF
       [''To: '' @ to params,
        ''Subject: '' @ subject params,
        ''Content-Type: text/plain; charset='' @ [CHR 0x22] @ ''UTF-8'' @ [CHR 0x22],
        [],
        body params]"

text \<open>
  \<open>Buffer.toString("base64")\<close>: three bytes give four characters of the standard
  alphabet; a last group of one or two bytes is padded with \<open>=\<close>.
\<close>

definition base64_alphabet :: string where
  "base64_alphabet = ''ABCDEFGHIJKLMNOPQRSTUVWXYZabcdefghijklmnopqrstuvwxyz0123456789+/''"

definition base64_char :: "nat \<Rightarrow> char" where
  "base64_char n = base64_alphabet ! n"

fun toString_base64 :: "string \<Rightarrow> string" where
  "toString_base64 [] = []"
| "toString_base64 [a] =
     [base64_char (of_char a div 4), base64_char (of_char a mod 4 * 16), CHR ''='', CHR ''='']"
| "toString_base64 [a, b] =
     [base64_char (of_char a div 4),
      base64_char (of_char a mod 4 * 16 + of_char b div 16),
      base64_char (of_char b mod 16 * 4), CHR ''='']"
| "toString_base64 (a # b # c # bs) =
     [base64_char (of_char a div 4),
      base64_char (of_char a mod 4 * 16 + of_char b div 16),
      base64_char (of_char b mod 16 * 4 + of_char c div 64),
      base64_char (of_char c mod 64)] @ toString_base64 bs"

text \<open>\<open>.replace(/c/g, d)\<close> for a single character, and \<open>.replace(/=+$/, "")\<close>.\<close>

definition replace_all :: "char \<Rightarrow> char \<Rightarrow> string \<Rightarrow> string" where
  "replace_all c d s = map (\<lambda>x. if x = c then d else x) s"

definition strip_trailing_equals :: "string \<Rightarrow> string" where
  "strip_trailing_equals s = rev (dropWhile (\<lambda>x. x = CHR ''='') (rev s))"

definition encodedMessage :: "string \<Rightarrow> string" where
  "encodedMessage raw =
     strip_trailing_equals
       (replace_all (CHR ''/'') (CHR ''_'') (replace_all (CHR ''+'') (CHR ''-'') (toString_base64 raw)))"

definition handleSendMessage ::
  "(string \<Rightarrow> bool) \<Rightarrow> services \<Rightarrow> env \<Rightarrow> json option \<Rightarrow> event list \<times> (thrown + result)" where
  "handleSendMessage is_email sv e pl =
     (case z_parse (handleSendMessage_schema is_email pl) of
        Inl err \<Rightarrow> ([], Inl err)
      | Inr params \<Rightarrow>
          (case getGmailClient e of
             Inl err \<Rightarrow> ([], Inl err)
           | Inr creds \<Rightarrow>
               let raw = encodedMessage (rawMessage params)
               in (case messages_send sv raw of
                     Inl err \<Rightarrow> ([NewGmailClient creds, MessagesSend raw], Inl err)
                   | Inr _ \<Rightarrow> ([NewGmailClient creds, MessagesSend raw], Inr (Status ''sent'')))))"

subsection \<open>notion.listPages\<close>

record pages_params =
  pageSize :: "rat option"
  filterProperty :: "string option"
  filterValue :: "string option"

text \<open>
  The refinement \<open>!data.filterProperty || (data.filterProperty && data.filterValue)\<close>,
  by truthiness: an empty string counts as not given.
\<close>

definition filter_refinement :: "pages_params \<Rightarrow> bool" where
  "filter_refinement data =
     (\<not> truthy (filterProperty data) \<or> (truthy (filterProperty data) \<and> truthy (filterValue data)))"

definition handleListPages_schema :: "json option \<Rightarrow> pages_params parsed" where
  "handleListPages_schema =
     z_object []
       (\<lambda>get. z_check filter_refinement
          (Issue [Key ''filterValue''] (Custom ''filterValue must be provided when filterProperty is set.''))
          (z_map (\<lambda>(n, p, v). \<lparr>pageSize = n, filterProperty = p, filterValue = v\<rparr>)
             (z_both (z_optional (z_number_int_positive_max20 [Key ''pageSize'']) (get ''pageSize''))
                (z_both (z_optional (z_string [Key ''filterProperty'']) (get ''filterProperty''))
                        (z_optional (z_string [Key ''filterValue'']) (get ''filterValue''))))))"

text \<open>The reshaping of the query results: full pages only.\<close>

fun select_pages :: "query_item list \<Rightarrow> page_out list" where
  "select_pages [] = []"
| "select_pages (FullPage pg # xs) =
     \<lparr>po_id = p_id pg, po_url = p_url pg, po_createdTime = p_created_time pg,
      po_lastEditedTime = p_last_edited_time pg, po_properties = p_properties pg\<rparr> # select_pages xs"
| "select_pages (_ # xs) = select_pages xs"

definition handleListPages :: "services \<Rightarrow> env \<Rightarrow> json option \<Rightarrow> event list \<times> (thrown + result)" where
  "handleListPages sv e pl =
     (case z_parse (handleListPages_schema (Some (case pl of None \<Rightarrow> JObj [] | Some v \<Rightarrow> v))) of
        Inl err \<Rightarrow> ([], Inl err)
      | Inr params \<Rightarrow>
          (case z_parse (notionEnvSchema e) of
             Inl err \<Rightarrow> ([], Inl err)
           | Inr nenv \<Rightarrow>
               (case getNotionClient e of
                  Inl err \<Rightarrow> ([], Inl err)
                | Inr key \<Rightarrow>
                    let flt = (case filterProperty params of None \<Rightarrow> None
                               | Some p \<Rightarrow> (case filterValue params of None \<Rightarrow> None
                                   | Some v \<Rightarrow> if p \<noteq> [] \<and> v \<noteq> []
                                              then Some \<lparr>f_property = p, f_contains = v\<rparr> else None));
                        req = \<lparr>q_data_source_id = NOTION_DATA_SOURCE_ID nenv,
                               q_page_size = (case pageSize params of None \<Rightarrow> 10 | Some n \<Rightarrow> n),
                               q_filter = flt\<rparr>
                    in (case dataSources_query sv req of
                          Inl err \<Rightarrow> ([NewNotionClient key, DataSourcesQuery req], Inl err)
                        | Inr results \<Rightarrow>
                            ([NewNotionClient key, DataSourcesQuery req], Inr (Pages (select_pages results)))))))"

subsection \<open>notion.createPage\<close>

record create_params =
  title :: string
  content :: string

definition handleCreatePage_schema :: "json option \<Rightarrow> create_params parsed" where
  "handleCreatePage_schema =
     z_object []
       (\<lambda>get. z_map (\<lambda>(t, c). \<lparr>title = t, content = c\<rparr>)
          (z_both (z_string_min1 [Key ''title''] (get ''title''))
                  (z_string_min1 [Key ''content''] (get ''content''))))"

definition handleCreatePage :: "services \<Rightarrow> env \<Rightarrow> json option \<Rightarrow> event list \<times> (thrown + result)" where
  "handleCreatePage sv e pl =
     (case z_parse (handleCreatePage_schema pl) of
        Inl err \<Rightarrow> ([], Inl err)
      | Inr params \<Rightarrow>
          (case z_parse (notionEnvSchema e) of
             Inl err \<Rightarrow> ([], Inl err)
           | Inr nenv \<Rightarrow>
               (case getNotionClient e of
                  Inl err \<Rightarrow> ([], Inl err)
                | Inr key \<Rightarrow>
                    let req = \<lparr>c_database_id = NOTION_DATABASE_ID nenv,
                               c_title = title params, c_paragraph = content params\<rparr>
                    in (case pages_create sv req of
                          Inl err \<Rightarrow> ([NewNotionClient key, PagesCreate req], Inl err)
                        | Inr response \<Rightarrow>
                            let pageUrl = (case cr_url response of None \<Rightarrow> JNull | Some u \<Rightarrow> JStr u)
                            in ([NewNotionClient key, PagesCreate req],
                                Inr (Created (cr_id response) pageUrl))))))"

section \<open>The route\<close>

datatype error_message = ZodMessage "issue list" | Message string

datatype response_body = Data result | ErrorBody error_message

record response =
  status :: nat
  json_body :: response_body

text \<open>The \<open>catch\<close> block of \<open>POST\<close>.\<close>

definition catch_error :: "thrown \<Rightarrow> response" where
  "catch_error err =
     (case err of
        ZodError is \<Rightarrow> \<lparr>status = 400, json_body = ErrorBody (ZodMessage is)\<rparr>
      | Error m \<Rightarrow> \<lparr>status = 500, json_body = ErrorBody (Message m)\<rparr>
      | NonError \<Rightarrow>
          \<lparr>status = 500, json_body = ErrorBody (Message ''Unexpected error while handling request.'')\<rparr>)"

definition respond :: "event list \<times> (thrown + result) \<Rightarrow> event list \<times> response" where
  "respond r =
     (fst r, case snd r of Inl err \<Rightarrow> catch_error err
             | Inr v \<Rightarrow> \<lparr>status = 200, json_body = Data v\<rparr>)"

text \<open>
  \<open>POST\<close>, given what \<open>await request.json()\<close> gives: the parsed body, or what it
  throws on a body that is not JSON.
\<close>

definition POST ::
  "(string \<Rightarrow> bool) \<Rightarrow> services \<Rightarrow> env \<Rightarrow> thrown + json \<Rightarrow> event list \<times> response" where
  "POST is_email sv e rb =
     (case rb of
        Inl err \<Rightarrow> ([], catch_error err)
      | Inr b \<Rightarrow>
          (case z_parse (requestSchema (Some b)) of
             Inl err \<Rightarrow> ([], catch_error err)
           | Inr parsed \<Rightarrow>
               if action parsed = ''gmail.listMessages''
                 then respond (handleListMessages sv e (payload parsed))
               else if action parsed = ''gmail.sendMessage''
                 then respond (handleSendMessage is_email sv e (payload parsed))
               else if action parsed = ''notion.listPages''
                 then respond (handleListPages sv e (payload parsed))
               else if action parsed = ''notion.createPage''
                 then respond (handleCreatePage sv e (payload parsed))
               else ([], \<lparr>status = 400, json_body = ErrorBody (Message ''Unsupported action'')\<rparr>)))"

section \<open>The encoding the claims speak of\<close>

text \<open>
  URL-safe base64 without padding, as RFC 4648 words it: the bytes are read as one string
  of bits, most significant bit first; the string is cut into groups of six bits, the last
  group filled with zero bits; each group is the index of a character in the URL-safe
  alphabet; no padding character is written. This definition is the specification that
  \<open>encodedMessage\<close> is compared with.
\<close>

definition base64url_alphabet :: string where
  "base64url_alphabet = ''ABCDEFGHIJKLMNOPQRSTUVWXYZabcdefghijklmnopqrstuvwxyz0123456789-_''"

fun bits :: "nat \<Rightarrow> nat \<Rightarrow> bool list" where
  "bits 0 n = []"
| "bits (Suc k) n = bits k (n div 2) @ [odd n]"

definition bits_value :: "bool list \<Rightarrow> nat" where
  "bits_value bs = foldl (\<lambda>n b. 2 * n + of_bool b) 0 bs"

fun sextets :: "bool list \<Rightarrow> bool list list" where
  "sextets (a # b # c # d # e # f # bs) = [a, b, c, d, e, f] # sextets bs"
| "sextets [] = []"
| "sextets bs = [bs @ replicate (6 - length bs) False]"

definition spec_base64url :: "string \<Rightarrow> string" where
  "spec_base64url s =
     map (\<lambda>g. base64url_alphabet ! bits_value g) (sextets (concat (map (\<lambda>c. bits 8 (of_char c)) s)))"

text \<open>The two replacements of \<open>encodedMessage\<close> on one character.\<close>

definition url_safe :: "char \<Rightarrow> char" where
  "url_safe x = (let y = (if x = CHR ''+'' then CHR ''-'' else x) in if y = CHR ''/'' then CHR ''_'' else y)"

section \<open>Example inputs\<close>

text \<open>
  A concrete email pattern, environment and services, used to instantiate the theorems
  below.
\<close>

definition example_is_email :: "string \<Rightarrow> bool" where
  "example_is_email s = (CHR ''@'' \<in> set s)"

definition example_env :: env where
  "example_env =
     [''GOOGLE_CLIENT_ID'' \<mapsto> ''id'', ''GOOGLE_CLIENT_SECRET'' \<mapsto> ''secret'',
      ''GOOGLE_REFRESH_TOKEN'' \<mapsto> ''token'', ''GOOGLE_REDIRECT_URI'' \<mapsto> ''uri'',
      ''NOTION_API_KEY'' \<mapsto> ''key'', ''NOTION_DATABASE_ID'' \<mapsto> ''db'',
      ''NOTION_DATA_SOURCE_ID'' \<mapsto> ''ds'']"

definition example_gmail_env :: gmail_env where
  "example_gmail_env =
     \<lparr>GOOGLE_CLIENT_ID = ''id'', GOOGLE_CLIENT_SECRET = ''secret'',
      GOOGLE_REFRESH_TOKEN = ''token'', GOOGLE_REDIRECT_URI = ''uri''\<rparr>"

definition example_notion_env :: notion_env where
  "example_notion_env = \<lparr>NOTION_API_KEY = ''key'', NOTION_DATABASE_ID = ''db'', NOTION_DATA_SOURCE_ID = ''ds''\<rparr>"

definition example_services :: services where
  "example_services =
     \<lparr>messages_list = (\<lambda>r. Inr (Some [\<lparr>m_id = Some ''m1'', m_threadId = Some ''t1''\<rparr>,
                                       \<lparr>m_id = None, m_threadId = Some ''t2''\<rparr>,
                                       \<lparr>m_id = Some ''m3'', m_threadId = None\<rparr>])),
      messages_get = (\<lambda>i. Inr \<lparr>g_headers = Some [\<lparr>h_name = Some ''Subject'', h_value = Some ''Hello''\<rparr>],
                               g_snippet = Some i\<rparr>),
      messages_send = (\<lambda>r. Inr JNull),
      dataSources_query = (\<lambda>q. Inr []),
      pages_create = (\<lambda>c. Inr \<lparr>cr_id = ''page-1'', cr_url = Some ''https://notion.example/page-1''\<rparr>)\<rparr>"

section \<open>Facts about the schemas\<close>

lemma z_parse_Inr_iff: "z_parse r = Inr v \<longleftrightarrow> r = ([], Some v)"
  by (cases r) (auto simp: z_parse_def split: list.splits option.splits)

lemma z_parse_ok: "z_parse ([], Some v) = Inr v"
  by (simp add: z_parse_def)

lemma z_parse_issues: "fst r \<noteq> [] \<Longrightarrow> z_parse r = Inl (ZodError (fst r))"
  by (cases r) (auto simp: z_parse_def split: list.splits option.splits)

lemma fst_z_map [simp]: "fst (z_map f r) = fst r"
  by (simp add: z_map_def)

lemma snd_z_map [simp]: "snd (z_map f r) = map_option f (snd r)"
  by (simp add: z_map_def)

lemma fst_z_both [simp]: "fst (z_both a b) = fst a @ fst b"
  by (simp add: z_both_def)

lemma snd_z_both_Some [simp]: "snd a = Some x \<Longrightarrow> snd b = Some y \<Longrightarrow> snd (z_both a b) = Some (x, y)"
  by (simp add: z_both_def)

lemma z_string_min1_absent: "z_string_min1 p None = ([Issue p Required], None)"
  by (simp add: z_string_min1_def z_check_def z_string_def)

lemma z_string_email_absent: "z_string_email ie p None = ([Issue p Required], None)"
  by (simp add: z_string_email_def z_check_def z_string_def)

section \<open>Facts about the route and the handlers\<close>

lemma requestSchema_ok:
  assumes "map_of b ''action'' = Some (JStr a)" and "a \<in> set actions"
    and "map_of b ''payload'' = pl" and "pl = None \<or> (\<exists>kvs. pl = Some (JObj kvs))"
  shows "requestSchema (Some (JObj b)) = ([], Some \<lparr>action = a, payload = pl\<rparr>)"
  using assms
  by (auto simp: requestSchema_def z_object_def z_enum_def z_optional_def z_record_any_def
      z_map_def z_both_def)

lemma sendSchema_issues:
  "fst (handleSendMessage_schema ie (Some (JObj kvs))) =
     fst (z_string_email ie [Key ''to''] (map_of kvs ''to'')) @
     fst (z_string_min1 [Key ''subject''] (map_of kvs ''subject'')) @
     fst (z_string_min1 [Key ''body''] (map_of kvs ''body''))"
  by (simp add: handleSendMessage_schema_def z_object_def)

lemma createSchema_issues:
  "fst (handleCreatePage_schema (Some (JObj kvs))) =
     fst (z_string_min1 [Key ''title''] (map_of kvs ''title'')) @
     fst (z_string_min1 [Key ''content''] (map_of kvs ''content''))"
  by (simp add: handleCreatePage_schema_def z_object_def)

lemma POST_sendMessage:
  assumes "map_of b ''action'' = Some (JStr ''gmail.sendMessage'')"
    and "map_of b ''payload'' = pl" and "pl = None \<or> (\<exists>kvs. pl = Some (JObj kvs))"
  shows "POST ie sv e (Inr (JObj b)) = respond (handleSendMessage ie sv e pl)"
  using requestSchema_ok [OF assms(1) _ assms(2,3)]
  by (simp add: POST_def z_parse_ok actions_def)

lemma POST_createPage:
  assumes "map_of b ''action'' = Some (JStr ''notion.createPage'')"
    and "map_of b ''payload'' = pl" and "pl = None \<or> (\<exists>kvs. pl = Some (JObj kvs))"
  shows "POST ie sv e (Inr (JObj b)) = respond (handleCreatePage sv e pl)"
  using requestSchema_ok [OF assms(1) _ assms(2,3)]
  by (simp add: POST_def z_parse_ok actions_def)

lemma POST_listMessages:
  assumes "map_of b ''action'' = Some (JStr ''gmail.listMessages'')"
    and "map_of b ''payload'' = pl" and "pl = None \<or> (\<exists>kvs. pl = Some (JObj kvs))"
  shows "POST ie sv e (Inr (JObj b)) = respond (handleListMessages sv e pl)"
  using requestSchema_ok [OF assms(1) _ assms(2,3)]
  by (simp add: POST_def z_parse_ok actions_def)

lemma POST_listPages:
  assumes "map_of b ''action'' = Some (JStr ''notion.listPages'')"
    and "map_of b ''payload'' = pl" and "pl = None \<or> (\<exists>kvs. pl = Some (JObj kvs))"
  shows "POST ie sv e (Inr (JObj b)) = respond (handleListPages sv e pl)"
  using requestSchema_ok [OF assms(1) _ assms(2,3)]
  by (simp add: POST_def z_parse_ok actions_def)

lemma respond_rejected:
  "respond ([], Inl (ZodError is)) = ([], \<lparr>status = 400, json_body = ErrorBody (ZodMessage is)\<rparr>)"
  by (simp add: respond_def catch_error_def)

lemma handleSendMessage_rejects:
  "fst (handleSendMessage_schema ie pl) \<noteq> [] \<Longrightarrow>
   handleSendMessage ie sv e pl = ([], Inl (ZodError (fst (handleSendMessage_schema ie pl))))"
  by (simp add: handleSendMessage_def z_parse_issues)

lemma handleCreatePage_rejects:
  "fst (handleCreatePage_schema pl) \<noteq> [] \<Longrightarrow>
   handleCreatePage sv e pl = ([], Inl (ZodError (fst (handleCreatePage_schema pl))))"
  by (simp add: handleCreatePage_def z_parse_issues)

lemma sendSchema_missing:
  assumes "f \<in> {''to'', ''subject'', ''body''}" and "map_of kvs f = None"
  shows "Issue [Key f] Required \<in> set (fst (handleSendMessage_schema ie (Some (JObj kvs))))"
  using assms
  by (auto simp: sendSchema_issues z_string_min1_absent z_string_email_absent)

lemma createSchema_missing:
  assumes "f \<in> {''title'', ''content''}" and "map_of kvs f = None"
  shows "Issue [Key f] Required \<in> set (fst (handleCreatePage_schema (Some (JObj kvs))))"
  using assms
  by (auto simp: createSchema_issues z_string_min1_absent)

lemma z_string_email_invalid:
  assumes "\<forall>t. v = JStr t \<longrightarrow> \<not> ie t"
  shows "\<exists>c. fst (z_string_email ie p (Some v)) = [Issue p c] \<and> c \<in> {InvalidEmail, InvalidType}"
  using assms by (cases v) (auto simp: z_string_email_def z_check_def z_string_def)

lemma z_enum_unsupported:
  assumes "\<forall>a. j = Some (JStr a) \<longrightarrow> a \<notin> set tags"
  shows "\<exists>c. z_enum tags p j = ([Issue p c], None)"
  using assms by (auto simp: z_enum_def split: option.splits json.splits)

lemma requestSchema_unsupported:
  assumes "\<forall>a. map_of b ''action'' = Some (JStr a) \<longrightarrow> a \<notin> set actions"
  shows "\<exists>c. fst (requestSchema (Some (JObj b))) =
           Issue [Key ''action''] c # fst (z_optional (z_record_any [Key ''payload'']) (map_of b ''payload''))
         \<and> z_enum actions [Key ''action''] (map_of b ''action'') = ([Issue [Key ''action''] c], None)"
proof -
  obtain c where "z_enum actions [Key ''action''] (map_of b ''action'') = ([Issue [Key ''action''] c], None)"
    using z_enum_unsupported [OF assms] by blast
  then show ?thesis
    by (simp add: requestSchema_def z_object_def)
qed

lemma record_payload_no_issue:
  "pl = None \<or> (\<exists>kvs. pl = Some (JObj kvs)) \<Longrightarrow> fst (z_optional (z_record_any p) pl) = []"
  by (auto simp: z_optional_def z_record_any_def)

lemma POST_rejects_envelope:
  "fst (requestSchema (Some j)) \<noteq> [] \<Longrightarrow>
   POST ie sv e (Inr j) =
     ([], \<lparr>status = 400, json_body = ErrorBody (ZodMessage (fst (requestSchema (Some j))))\<rparr>)"
  by (simp add: POST_def z_parse_issues catch_error_def)

section \<open>The size parameters\<close>

lemma is_integer_iff: "is_integer r \<longleftrightarrow> (\<exists>n::int. r = of_int n)"
  unfolding is_integer_def by (metis floor_of_int)

lemma size_check_issues:
  "fst (z_number_int_positive_max20 p (Some (JNum r))) =
     (if is_integer r then [] else [Issue p NotInteger]) @
     (if 0 < r then [] else [Issue p TooSmall]) @
     (if r \<le> 20 then [] else [Issue p TooBig])"
  by (simp add: z_number_int_positive_max20_def z_check_def z_number_def)

lemma size_check_value:
  "snd (z_number_int_positive_max20 p (Some (JNum r))) = Some r"
  by (simp add: z_number_int_positive_max20_def z_check_def z_number_def)

lemma size_check_wrong_type:
  "\<forall>r. v \<noteq> JNum r \<Longrightarrow> z_number_int_positive_max20 p (Some v) = ([Issue p InvalidType], None)"
  by (cases v) (simp_all add: z_number_int_positive_max20_def z_check_def z_number_def)

lemma size_accepted_iff:
  "fst (z_number_int_positive_max20 p (Some v)) = [] \<longleftrightarrow>
     (\<exists>n::int. 1 \<le> n \<and> n \<le> 20 \<and> v = JNum (of_int n))"
proof (cases "\<exists>r. v = JNum r")
  case False
  then show ?thesis by (auto simp: size_check_wrong_type)
next
  case True
  then obtain r where v: "v = JNum r" by blast
  show ?thesis
  proof
    assume "fst (z_number_int_positive_max20 p (Some v)) = []"
    then have i: "is_integer r" and "0 < r" and "r \<le> 20"
      by (auto simp: v size_check_issues split: if_splits)
    then obtain n :: int where n: "r = of_int n" by (auto simp: is_integer_iff)
    with \<open>0 < r\<close> \<open>r \<le> 20\<close> have "1 \<le> n \<and> n \<le> 20" by simp
    with n v show "\<exists>n::int. 1 \<le> n \<and> n \<le> 20 \<and> v = JNum (of_int n)" by blast
  next
    assume "\<exists>n::int. 1 \<le> n \<and> n \<le> 20 \<and> v = JNum (of_int n)"
    then obtain n :: int where n: "1 \<le> n" "n \<le> 20" "r = of_int n" using v by auto
    then have "is_integer r" "0 < r" "r \<le> 20" by (auto simp: is_integer_iff)
    then show "fst (z_number_int_positive_max20 p (Some v)) = []"
      by (simp add: v size_check_issues)
  qed
qed

lemma size_issue_paths:
  "x \<in> set (fst (z_number_int_positive_max20 p j)) \<Longrightarrow> path x = p"
  by (cases j; cases "the j")
     (auto simp: z_number_int_positive_max20_def z_check_def z_number_def split: if_splits)

lemma optional_size_issue_iff:
  "(\<exists>c. Issue p c \<in> set (fst (z_optional (z_number_int_positive_max20 p) j))) \<longleftrightarrow>
     (\<exists>v. j = Some v \<and> \<not> (\<exists>n::int. 1 \<le> n \<and> n \<le> 20 \<and> v = JNum (of_int n)))"
proof (cases j)
  case None
  then show ?thesis by (simp add: z_optional_def)
next
  case (Some v)
  let ?is = "fst (z_number_int_positive_max20 p (Some v))"
  have "(\<exists>c. Issue p c \<in> set ?is) \<longleftrightarrow> ?is \<noteq> []"
  proof
    assume "?is \<noteq> []"
    then obtain x where x: "x \<in> set ?is" by (cases ?is) auto
    then have "path x = p" by (rule size_issue_paths)
    then have "x = Issue p (code x)" by (cases x) simp
    with x show "\<exists>c. Issue p c \<in> set ?is" by metis
  qed auto
  then show ?thesis
    using size_accepted_iff [of p v] by (simp add: Some z_optional_def)
qed

lemma z_elements_paths:
  "x \<in> set (fst (z_elements p i xs)) \<Longrightarrow> \<exists>k. path x = p @ [Idx k]"
proof (induction xs arbitrary: i)
  case Nil
  then show ?case by simp
next
  case (Cons y ys)
  then show ?case
    by (cases y) (auto simp: z_string_def)
qed

lemma optional_array_paths:
  "x \<in> set (fst (z_optional (z_array_string p) j)) \<Longrightarrow> path x = p \<or> (\<exists>k. path x = p @ [Idx k])"
  by (cases j; cases "the j")
     (auto simp: z_optional_def z_array_string_def dest: z_elements_paths)

lemma optional_boolean_paths:
  "x \<in> set (fst (z_optional (z_boolean p) j)) \<Longrightarrow> path x = p"
  by (cases j; cases "the j") (auto simp: z_optional_def z_boolean_def)

lemma optional_string_paths:
  "x \<in> set (fst (z_optional (z_string p) j)) \<Longrightarrow> path x = p"
  by (cases j; cases "the j") (auto simp: z_optional_def z_string_def)

lemma listMessages_schema_issues:
  "fst (handleListMessages_schema (Some (JObj kvs))) =
     fst (z_optional (z_number_int_positive_max20 [Key ''maxResults'']) (map_of kvs ''maxResults'')) @
     fst (z_optional (z_array_string [Key ''labelIds'']) (map_of kvs ''labelIds'')) @
     fst (z_optional (z_boolean [Key ''includeSpamTrash'']) (map_of kvs ''includeSpamTrash''))"
  by (simp add: handleListMessages_schema_def z_optional_def z_object_def)

lemma maxResults_issue_iff:
  "(\<exists>c. Issue [Key ''maxResults''] c \<in> set (fst (handleListMessages_schema (Some (JObj kvs))))) \<longleftrightarrow>
     (\<exists>v. map_of kvs ''maxResults'' = Some v \<and> \<not> (\<exists>n::int. 1 \<le> n \<and> n \<le> 20 \<and> v = JNum (of_int n)))"
proof -
  have "\<not> Issue [Key ''maxResults''] c \<in> set (fst (z_optional (z_array_string [Key ''labelIds'']) j))" for c j
    using optional_array_paths [of "Issue [Key ''maxResults''] c" "[Key ''labelIds'']" j] by auto
  moreover have "\<not> Issue [Key ''maxResults''] c \<in> set (fst (z_optional (z_boolean [Key ''includeSpamTrash'']) j))" for c j
    using optional_boolean_paths [of "Issue [Key ''maxResults''] c" "[Key ''includeSpamTrash'']" j] by auto
  ultimately show ?thesis
    using optional_size_issue_iff [of "[Key ''maxResults'']" "map_of kvs ''maxResults''"]
    by (simp add: listMessages_schema_issues)
qed

section \<open>The environment and the listPages schema\<close>

lemma notionEnv_ok:
  assumes "e ''NOTION_API_KEY'' = Some k" "k \<noteq> []"
    and "e ''NOTION_DATABASE_ID'' = Some d" "d \<noteq> []"
    and "e ''NOTION_DATA_SOURCE_ID'' = Some s" "s \<noteq> []"
  shows "notionEnvSchema e =
           ([], Some \<lparr>NOTION_API_KEY = k, NOTION_DATABASE_ID = d, NOTION_DATA_SOURCE_ID = s\<rparr>)"
  using assms
  by (cases k; cases d; cases s)
     (simp_all add: notionEnvSchema_def z_env_min1_def z_string_min1_def z_check_def z_string_def
       z_both_def z_map_def)

lemma gmailEnv_ok:
  assumes "e ''GOOGLE_CLIENT_ID'' = Some i" "i \<noteq> []"
    and "e ''GOOGLE_CLIENT_SECRET'' = Some s" "s \<noteq> []"
    and "e ''GOOGLE_REFRESH_TOKEN'' = Some t" "t \<noteq> []"
    and "e ''GOOGLE_REDIRECT_URI'' = Some u" "u \<noteq> []"
  shows "gmailEnvSchema e =
           ([], Some \<lparr>GOOGLE_CLIENT_ID = i, GOOGLE_CLIENT_SECRET = s,
                      GOOGLE_REFRESH_TOKEN = t, GOOGLE_REDIRECT_URI = u\<rparr>)"
  using assms
  by (cases i; cases s; cases t; cases u)
     (simp_all add: gmailEnvSchema_def z_env_min1_def z_string_min1_def z_check_def z_string_def
       z_both_def z_map_def)

lemma optional_size_valid:
  "1 \<le> n \<Longrightarrow> n \<le> 20 \<Longrightarrow>
   z_optional (z_number_int_positive_max20 p) (Some (JNum (of_int n))) = ([], Some (Some (of_int n)))"
proof -
  assume "1 \<le> n" "n \<le> 20"
  then have "fst (z_number_int_positive_max20 p (Some (JNum (of_int n)))) = []"
    using size_accepted_iff [of p "JNum (of_int n)"] by blast
  then show ?thesis
    by (simp add: z_optional_def z_map_def size_check_value)
qed

lemma optional_absent: "z_optional f None = ([], Some None)"
  by (simp add: z_optional_def)

lemma optional_string_present: "z_optional (z_string p) (Some (JStr s)) = ([], Some (Some s))"
  by (simp add: z_optional_def z_map_def z_string_def)

lemma optional_size_aborted:
  "snd (z_optional (z_number_int_positive_max20 p) j) = None \<Longrightarrow>
   fst (z_optional (z_number_int_positive_max20 p) j) \<noteq> []"
  by (cases j; cases "the j")
     (auto simp: z_optional_def z_map_def z_number_int_positive_max20_def z_check_def z_number_def)

text \<open>The three fields of the listPages schema, before the refinement.\<close>

lemma listPages_schema_unfold:
  "handleListPages_schema (Some (JObj kvs)) =
     z_check filter_refinement
       (Issue [Key ''filterValue''] (Custom ''filterValue must be provided when filterProperty is set.''))
       (z_map (\<lambda>(n, p, v). \<lparr>pageSize = n, filterProperty = p, filterValue = v\<rparr>)
          (z_both (z_optional (z_number_int_positive_max20 [Key ''pageSize'']) (map_of kvs ''pageSize''))
             (z_both (z_optional (z_string [Key ''filterProperty'']) (map_of kvs ''filterProperty''))
                     (z_optional (z_string [Key ''filterValue'']) (map_of kvs ''filterValue'')))))"
  by (simp add: handleListPages_schema_def z_object_def)

lemma listPages_schema_valid:
  assumes "z_optional (z_number_int_positive_max20 [Key ''pageSize'']) (map_of kvs ''pageSize'') = ([], Some n)"
    and "z_optional (z_string [Key ''filterProperty'']) (map_of kvs ''filterProperty'') = ([], Some p)"
    and "z_optional (z_string [Key ''filterValue'']) (map_of kvs ''filterValue'') = ([], Some v)"
    and "filter_refinement \<lparr>pageSize = n, filterProperty = p, filterValue = v\<rparr>"
  shows "handleListPages_schema (Some (JObj kvs)) =
           ([], Some \<lparr>pageSize = n, filterProperty = p, filterValue = v\<rparr>)"
  using assms by (simp add: listPages_schema_unfold z_check_def z_map_def z_both_def)

lemma listPages_schema_refused:
  assumes "z_optional (z_string [Key ''filterProperty'']) (map_of kvs ''filterProperty'') = ([], Some p)"
    and "z_optional (z_string [Key ''filterValue'']) (map_of kvs ''filterValue'') = ([], Some v)"
    and "truthy p" and "\<not> truthy v"
  shows "fst (handleListPages_schema (Some (JObj kvs))) \<noteq> []"
    and "snd (z_optional (z_number_int_positive_max20 [Key ''pageSize'']) (map_of kvs ''pageSize'')) \<noteq> None
         \<Longrightarrow> Issue [Key ''filterValue''] (Custom ''filterValue must be provided when filterProperty is set.'')
               \<in> set (fst (handleListPages_schema (Some (JObj kvs))))"
proof -
  let ?size = "z_optional (z_number_int_positive_max20 [Key ''pageSize'']) (map_of kvs ''pageSize'')"
  show "fst (handleListPages_schema (Some (JObj kvs))) \<noteq> []"
  proof (cases "snd ?size")
    case None
    then have "fst ?size \<noteq> []" by (rule optional_size_aborted)
    then show ?thesis
      using None assms by (simp add: listPages_schema_unfold z_check_def z_map_def z_both_def)
  next
    case (Some n)
    then show ?thesis
      using assms by (simp add: listPages_schema_unfold z_check_def z_map_def z_both_def filter_refinement_def)
  qed
  show "Issue [Key ''filterValue''] (Custom ''filterValue must be provided when filterProperty is set.'')
               \<in> set (fst (handleListPages_schema (Some (JObj kvs))))"
    if "snd ?size \<noteq> None"
    using that assms
    by (auto simp: listPages_schema_unfold z_check_def z_map_def z_both_def filter_refinement_def)
qed

lemma handleListPages_rejects:
  "fst (handleListPages_schema (Some (case pl of None \<Rightarrow> JObj [] | Some v \<Rightarrow> v))) \<noteq> [] \<Longrightarrow>
   handleListPages sv e pl =
     ([], Inl (ZodError (fst (handleListPages_schema (Some (case pl of None \<Rightarrow> JObj [] | Some v \<Rightarrow> v))))))"
  by (simp add: handleListPages_def z_parse_issues)

lemma handleListPages_query:
  assumes "handleListPages_schema (Some (case pl of None \<Rightarrow> JObj [] | Some v \<Rightarrow> v)) = ([], Some params)"
    and "notionEnvSchema e = ([], Some nenv)"
  shows "fst (handleListPages sv e pl) =
           [NewNotionClient (NOTION_API_KEY nenv),
            DataSourcesQuery
              \<lparr>q_data_source_id = NOTION_DATA_SOURCE_ID nenv,
               q_page_size = (case pageSize params of None \<Rightarrow> 10 | Some n \<Rightarrow> n),
               q_filter = (if truthy (filterProperty params) \<and> truthy (filterValue params)
                           then Some \<lparr>f_property = the (filterProperty params),
                                      f_contains = the (filterValue params)\<rparr>
                           else None)\<rparr>]"
  using assms
  by (auto simp: handleListPages_def z_parse_ok getNotionClient_def Let_def truthy_def
      split: option.splits sum.splits)

lemma listMessages_schema_omitted:
  assumes "handleListMessages_schema (Some (JObj kvs)) = (is, Some parsed)"
    and "map_of kvs ''maxResults'' = None"
  shows "\<exists>q. parsed = Some q \<and> maxResults q = None"
  using assms
  by (auto simp: handleListMessages_schema_def z_optional_def z_object_def z_map_def z_both_def
      split: option.splits)

lemma listMessages_schema_no_payload: "handleListMessages_schema None = ([], Some None)"
  by (simp add: handleListMessages_schema_def z_optional_def)

lemma handleListMessages_calls:
  assumes "handleListMessages_schema pl = ([], Some parsed)"
    and "gmailEnvSchema e = ([], Some creds)"
  shows "\<exists>rest. fst (handleListMessages sv e pl) =
           NewGmailClient creds #
           MessagesList
             \<lparr>lr_maxResults = (case parsed of None \<Rightarrow> 10
                               | Some q \<Rightarrow> (case maxResults q of None \<Rightarrow> 10 | Some n \<Rightarrow> n)),
              lr_labelIds = (case parsed of None \<Rightarrow> None | Some q \<Rightarrow> labelIds q),
              lr_includeSpamTrash = (case parsed of None \<Rightarrow> None | Some q \<Rightarrow> includeSpamTrash q)\<rparr> # rest"
  using assms
  by (auto simp: handleListMessages_def z_parse_ok getGmailClient_def Let_def
      split: option.splits sum.splits)

lemma handleListMessages_rejects:
  "fst (handleListMessages_schema pl) \<noteq> [] \<Longrightarrow>
   handleListMessages sv e pl = ([], Inl (ZodError (fst (handleListMessages_schema pl))))"
  by (simp add: handleListMessages_def z_parse_issues)

lemma pageSize_issue_iff:
  "(\<exists>c. Issue [Key ''pageSize''] c \<in> set (fst (handleListPages_schema (Some (JObj kvs))))) \<longleftrightarrow>
     (\<exists>v. map_of kvs ''pageSize'' = Some v \<and> \<not> (\<exists>n::int. 1 \<le> n \<and> n \<le> 20 \<and> v = JNum (of_int n)))"
proof -
  let ?size = "z_optional (z_number_int_positive_max20 [Key ''pageSize'']) (map_of kvs ''pageSize'')"
  let ?fp = "z_optional (z_string [Key ''filterProperty'']) (map_of kvs ''filterProperty'')"
  let ?fv = "z_optional (z_string [Key ''filterValue'']) (map_of kvs ''filterValue'')"
  have a: "\<not> Issue [Key ''pageSize''] c \<in> set (fst ?fp)" for c
    using optional_string_paths [of "Issue [Key ''pageSize''] c" "[Key ''filterProperty'']"] by auto
  have b: "\<not> Issue [Key ''pageSize''] c \<in> set (fst ?fv)" for c
    using optional_string_paths [of "Issue [Key ''pageSize''] c" "[Key ''filterValue'']"] by auto
  have "(Issue [Key ''pageSize''] c \<in> set (fst (handleListPages_schema (Some (JObj kvs))))) \<longleftrightarrow>
        Issue [Key ''pageSize''] c \<in> set (fst ?size)" for c
    using a [of c] b [of c]
    by (auto simp: listPages_schema_unfold z_check_def z_map_def split: option.splits if_splits)
  then show ?thesis
    using optional_size_issue_iff [of "[Key ''pageSize'']" "map_of kvs ''pageSize''"] by simp
qed

lemma listPages_schema_omitted:
  assumes "handleListPages_schema (Some (JObj kvs)) = (is, Some params)"
    and "map_of kvs ''pageSize'' = None"
  shows "pageSize params = None"
  using assms
  by (auto simp: listPages_schema_unfold z_check_def z_optional_def z_map_def z_both_def
      split: option.splits if_splits)

lemma fst_respond [simp]: "fst (respond r) = fst r"
  by (simp add: respond_def)

lemma getGmailClient_Inr: "getGmailClient e = Inr creds \<Longrightarrow> gmailEnvSchema e = ([], Some creds)"
  by (cases "gmailEnvSchema e")
     (auto simp: getGmailClient_def split: list.splits option.splits)

lemma optional_size_snd:
  "map_of kvs k = None \<or> (\<exists>r. map_of kvs k = Some (JNum r)) \<Longrightarrow>
   snd (z_optional (z_number_int_positive_max20 p) (map_of kvs k)) \<noteq> None"
  by (auto simp: z_optional_def z_map_def size_check_value)

lemma handleCreatePage_succeeds:
  assumes "handleCreatePage_schema pl = ([], Some params)"
    and "notionEnvSchema e = ([], Some nenv)"
    and "pages_create sv \<lparr>c_database_id = NOTION_DATABASE_ID nenv, c_title = title params,
                          c_paragraph = content params\<rparr> = Inr resp"
  shows "handleCreatePage sv e pl =
           ([NewNotionClient (NOTION_API_KEY nenv),
             PagesCreate \<lparr>c_database_id = NOTION_DATABASE_ID nenv, c_title = title params,
                          c_paragraph = content params\<rparr>],
            Inr (Created (cr_id resp) (case cr_url resp of None \<Rightarrow> JNull | Some u \<Rightarrow> JStr u)))"
  using assms
  by (simp add: handleCreatePage_def z_parse_ok getNotionClient_def Let_def)

section \<open>The fan-out of listMessages\<close>

lemma fetch_detail_cases:
  "fetch_detail sv m = (tr, Inr d) \<Longrightarrow>
     (\<not> truthy (m_id m) \<and> d = None \<and> tr = []) \<or>
     (\<exists>i g. m_id m = Some i \<and> i \<noteq> [] \<and> messages_get sv i = Inr g \<and> tr = [MessagesGet i] \<and>
            (\<exists>y. d = Some y \<and> o_id y = i \<and> o_threadId y = m_threadId m \<and> o_snippet y = g_snippet g))"
  by (auto simp: fetch_detail_def truthy_def split: option.splits if_splits sum.splits)

lemma promise_all_Inr:
  "snd (promise_all ps) = Inr vs \<Longrightarrow> map snd ps = map Inr vs"
  by (induction ps arbitrary: vs) (auto split: sum.splits)

lemma fan_out_positional:
  assumes "snd (promise_all (map (fetch_detail sv) ms)) = Inr ds"
  shows "map (\<lambda>y. (Some (o_id y), o_threadId y)) (filter_Boolean ds) =
           filter (\<lambda>x. truthy (fst x)) (map (\<lambda>m. (m_id m, m_threadId m)) ms) \<and>
         (\<forall>y \<in> set (filter_Boolean ds). \<exists>g. messages_get sv (o_id y) = Inr g \<and> o_snippet y = g_snippet g)"
  using assms
proof (induction ms arbitrary: ds)
  case Nil
  then show ?case by simp
next
  case (Cons m ms)
  from Cons.prems obtain d ds' where ds: "ds = d # ds'"
    and d: "snd (fetch_detail sv m) = Inr d"
    and r: "snd (promise_all (map (fetch_detail sv) ms)) = Inr ds'"
    by (auto split: sum.splits)
  note ih = Cons.IH [OF r]
  from d have "fetch_detail sv m = (fst (fetch_detail sv m), Inr d)"
    by (metis prod.collapse)
  from fetch_detail_cases [OF this] show ?case
  proof
    assume "\<not> truthy (m_id m) \<and> d = None \<and> fst (fetch_detail sv m) = []"
    with ih show ?thesis by (simp add: ds)
  next
    assume "\<exists>i g. m_id m = Some i \<and> i \<noteq> [] \<and> messages_get sv i = Inr g \<and>
              fst (fetch_detail sv m) = [MessagesGet i] \<and>
              (\<exists>y. d = Some y \<and> o_id y = i \<and> o_threadId y = m_threadId m \<and> o_snippet y = g_snippet g)"
    then obtain i g y where "m_id m = Some i" "i \<noteq> []" "messages_get sv i = Inr g"
      "d = Some y" "o_id y = i" "o_threadId y = m_threadId m" "o_snippet y = g_snippet g"
      by blast
    with ih show ?thesis by (simp add: ds truthy_def)
  qed
qed

lemma length_filter_Boolean: "length (filter_Boolean ds) \<le> length ds"
  by (induction ds rule: filter_Boolean.induct) auto

lemma handleListMessages_Inr:
  assumes "handleListMessages sv e pl = (tr, Inr r)"
  shows "\<exists>creds req listing ds.
           take 2 tr = [NewGmailClient creds, MessagesList req] \<and>
           messages_list sv req = Inr listing \<and>
           snd (promise_all (map (fetch_detail sv) (case listing of None \<Rightarrow> [] | Some ms \<Rightarrow> ms))) = Inr ds \<and>
           r = Messages (filter_Boolean ds)"
  using assms
  by (auto simp: handleListMessages_def Let_def split: sum.splits)

text \<open>
  The handler returns a result whenever validation passes, the client can be built and the
  list call and every detail call resolve.
\<close>

lemma promise_all_resolves:
  "\<forall>p \<in> set ps. \<exists>v. snd p = Inr v \<Longrightarrow> \<exists>vs. snd (promise_all ps) = Inr vs"
  by (induction ps) auto

lemma fetch_detail_resolves:
  "\<forall>i. \<exists>g. messages_get sv i = Inr g \<Longrightarrow> \<exists>d. snd (fetch_detail sv m) = Inr d"
proof -
  assume a: "\<forall>i. \<exists>g. messages_get sv i = Inr g"
  show ?thesis
  proof (cases "m_id m")
    case None
    then show ?thesis by (simp add: fetch_detail_def)
  next
    case (Some i)
    from a obtain g where "messages_get sv i = Inr g" by blast
    with Some show ?thesis by (simp add: fetch_detail_def)
  qed
qed

lemma handleListMessages_returns:
  assumes "handleListMessages_schema pl = ([], Some parsed)"
    and "gmailEnvSchema e = ([], Some creds)"
    and "\<forall>req. \<exists>listing. messages_list sv req = Inr listing"
    and "\<forall>i. \<exists>g. messages_get sv i = Inr g"
  shows "\<exists>out. snd (handleListMessages sv e pl) = Inr (Messages out)"
proof -
  let ?params = "case parsed of
                   None \<Rightarrow> \<lparr>maxResults = None, labelIds = None, includeSpamTrash = None\<rparr>
                 | Some q \<Rightarrow> q"
  let ?req = "\<lparr>lr_maxResults = (case maxResults ?params of None \<Rightarrow> 10 | Some n \<Rightarrow> n),
               lr_labelIds = labelIds ?params,
               lr_includeSpamTrash = includeSpamTrash ?params\<rparr>"
  from assms(3) obtain listing where l: "messages_list sv ?req = Inr listing" by blast
  let ?ms = "case listing of None \<Rightarrow> [] | Some ms \<Rightarrow> ms"
  have "\<forall>p \<in> set (map (fetch_detail sv) ?ms). \<exists>v. snd p = Inr v"
    using fetch_detail_resolves [OF assms(4)] by auto
  then obtain ds where "snd (promise_all (map (fetch_detail sv) ?ms)) = Inr ds"
    using promise_all_resolves by blast
  then show ?thesis
    using assms(1,2) l
    by (simp add: handleListMessages_def z_parse_ok getGmailClient_def Let_def)
qed

section \<open>The encoding of the message\<close>

lemma foldl_bits: "foldl (\<lambda>n b. 2 * n + of_bool b) a bs = a * 2 ^ length bs + bits_value bs"
  unfolding bits_value_def
proof (induction bs rule: rev_induct)
  case Nil
  then show ?case by simp
next
  case (snoc b bs)
  then show ?case by (simp add: algebra_simps)
qed

lemma bits_value_append:
  "bits_value (xs @ ys) = bits_value xs * 2 ^ length ys + bits_value ys"
  using foldl_bits [of "bits_value xs" ys] by (simp add: bits_value_def)

lemma bits_value_Nil [simp]: "bits_value [] = 0"
  by (simp add: bits_value_def)

lemma bits_value_single [simp]: "bits_value [b] = of_bool b"
  by (simp add: bits_value_def)

lemma length_bits [simp]: "length (bits k n) = k"
  by (induction k arbitrary: n) auto

lemma bits_value_bits: "bits_value (bits k n) = n mod 2 ^ k"
proof (induction k arbitrary: n)
  case 0
  then show ?case by simp
next
  case (Suc k)
  have "bits_value (bits (Suc k) n) = (n div 2 mod 2 ^ k) * 2 + of_bool (odd n)"
    by (simp add: bits_value_append Suc)
  also have "\<dots> = n mod 2 ^ Suc k"
    by (simp add: mod_mult2_eq mod_2_eq_odd mult.commute)
  finally show ?case .
qed

lemma bits_split: "bits (j + k) n = bits j (n div 2 ^ k) @ bits k n"
proof (induction k arbitrary: n)
  case 0
  then show ?case by simp
next
  case (Suc k)
  have "bits (j + Suc k) n = bits (j + k) (n div 2) @ [odd n]" by simp
  also have "\<dots> = bits j (n div 2 div 2 ^ k) @ bits k (n div 2) @ [odd n]"
    by (simp add: Suc)
  also have "n div 2 div 2 ^ k = n div 2 ^ Suc k"
    by (simp add: div_mult2_eq)
  finally show ?case by simp
qed

lemma bits_value_replicate_False [simp]: "bits_value (replicate k False) = 0"
  by (induction k) (simp_all add: bits_value_def)

lemma sextets_full: "length g = 6 \<Longrightarrow> sextets (g @ bs) = g # sextets bs"
  by (auto simp: eval_nat_numeral length_Suc_conv)

lemma sextets_last: "0 < length g \<Longrightarrow> length g < 6 \<Longrightarrow> sextets g = [g @ replicate (6 - length g) False]"
  by (cases g rule: sextets.cases) auto

lemma sextets_length: "g \<in> set (sextets bs) \<Longrightarrow> length g = 6"
  by (induction bs rule: sextets.induct) auto

lemma bits_value_less: "bits_value bs < 2 ^ length bs"
proof (induction bs rule: rev_induct)
  case Nil
  then show ?case by simp
next
  case (snoc b bs)
  then show ?case by (cases b) (simp_all add: bits_value_append)
qed

lemma bits8_high6: "bits 8 n = bits 6 (n div 4) @ bits 2 n"
  using bits_split [of 6 2 n] by simp

lemma bits8_high4: "bits 8 n = bits 4 (n div 16) @ bits 4 n"
  using bits_split [of 4 4 n] by simp

lemma bits8_high2: "bits 8 n = bits 2 (n div 64) @ bits 6 n"
  using bits_split [of 2 6 n] by simp

lemma byte_div4: "(n::nat) < 256 \<Longrightarrow> n div 4 mod 64 = n div 4"
  by simp

lemma byte_div16: "(n::nat) < 256 \<Longrightarrow> n div 16 mod 16 = n div 16"
  by simp

lemma byte_div64: "(n::nat) < 256 \<Longrightarrow> n div 64 mod 4 = n div 64"
  by simp

lemma sextets_full2:
  assumes "length g1 = 6" "0 < length g2" "length g2 < 6"
  shows "sextets (g1 @ g2) = [g1, g2 @ replicate (6 - length g2) False]"
  using assms by (simp add: sextets_full sextets_last)

lemma sextets_full3:
  assumes "length g1 = 6" "length g2 = 6" "0 < length g3" "length g3 < 6"
  shows "sextets (g1 @ g2 @ g3) = [g1, g2, g3 @ replicate (6 - length g3) False]"
  using assms by (simp add: sextets_full sextets_last)

lemma sextets_full4:
  assumes "length g1 = 6" "length g2 = 6" "length g3 = 6" "length g4 = 6"
  shows "sextets (g1 @ g2 @ g3 @ g4 @ bs) = g1 # g2 # g3 # g4 # sextets bs"
  using assms by (simp add: sextets_full)

lemma spec_three:
  "spec_base64url (x # y # z # s) =
     [base64url_alphabet ! (of_char x div 4),
      base64url_alphabet ! (of_char x mod 4 * 16 + of_char y div 16),
      base64url_alphabet ! (of_char y mod 16 * 4 + of_char z div 64),
      base64url_alphabet ! (of_char z mod 64)] @ spec_base64url s"
proof -
  let ?a = "of_char x :: nat" and ?b = "of_char y :: nat" and ?c = "of_char z :: nat"
  let ?R = "concat (map (\<lambda>c. bits 8 (of_char c)) s)"
  let ?g1 = "bits 6 (?a div 4)" and ?g2 = "bits 2 ?a @ bits 4 (?b div 16)"
  let ?g3 = "bits 4 ?b @ bits 2 (?c div 64)" and ?g4 = "bits 6 ?c"
  have "concat (map (\<lambda>c. bits 8 (of_char c)) (x # y # z # s)) = bits 8 ?a @ bits 8 ?b @ bits 8 ?c @ ?R"
    by simp
  also have "\<dots> = ?g1 @ ?g2 @ ?g3 @ ?g4 @ ?R"
    by (simp add: bits8_high6 [of ?a] bits8_high4 [of ?b] bits8_high2 [of ?c])
  also have "sextets \<dots> = ?g1 # ?g2 # ?g3 # ?g4 # sextets ?R"
    by (rule sextets_full4) simp_all
  finally have "sextets (concat (map (\<lambda>c. bits 8 (of_char c)) (x # y # z # s))) =
      ?g1 # ?g2 # ?g3 # ?g4 # sextets ?R" .
  moreover have "bits_value ?g1 = ?a div 4"
    by (simp add: bits_value_bits byte_div4)
  moreover have "bits_value ?g2 = ?a mod 4 * 16 + ?b div 16"
    by (simp add: bits_value_append bits_value_bits byte_div16)
  moreover have "bits_value ?g3 = ?b mod 16 * 4 + ?c div 64"
    by (simp add: bits_value_append bits_value_bits byte_div64)
  moreover have "bits_value ?g4 = ?c mod 64"
    by (simp add: bits_value_bits)
  ultimately show ?thesis
    by (simp add: spec_base64url_def)
qed

lemma spec_one:
  "spec_base64url [x] =
     [base64url_alphabet ! (of_char x div 4), base64url_alphabet ! (of_char x mod 4 * 16)]"
proof -
  let ?a = "of_char x :: nat"
  have "sextets (bits 6 (?a div 4) @ bits 2 ?a) = [bits 6 (?a div 4), bits 2 ?a @ replicate 4 False]"
    using sextets_full2 [of "bits 6 (?a div 4)" "bits 2 ?a"] by simp
  moreover have "bits_value (bits 6 (?a div 4)) = ?a div 4"
    by (simp add: bits_value_bits byte_div4)
  moreover have "bits_value (bits 2 ?a @ replicate 4 False) = ?a mod 4 * 16"
    by (simp add: bits_value_append bits_value_bits)
  ultimately show ?thesis
    by (simp add: spec_base64url_def bits8_high6 [of ?a])
qed

lemma spec_two:
  "spec_base64url [x, y] =
     [base64url_alphabet ! (of_char x div 4),
      base64url_alphabet ! (of_char x mod 4 * 16 + of_char y div 16),
      base64url_alphabet ! (of_char y mod 16 * 4)]"
proof -
  let ?a = "of_char x :: nat" and ?b = "of_char y :: nat"
  let ?g1 = "bits 6 (?a div 4)" and ?g2 = "bits 2 ?a @ bits 4 (?b div 16)"
  have "sextets (?g1 @ ?g2 @ bits 4 ?b) = [?g1, ?g2, bits 4 ?b @ replicate 2 False]"
    using sextets_full3 [of ?g1 ?g2 "bits 4 ?b"] by simp
  moreover have "bits_value ?g1 = ?a div 4"
    by (simp add: bits_value_bits byte_div4)
  moreover have "bits_value ?g2 = ?a mod 4 * 16 + ?b div 16"
    by (simp add: bits_value_append bits_value_bits byte_div16)
  moreover have "bits_value (bits 4 ?b @ replicate 2 False) = ?b mod 16 * 4"
    by (simp add: bits_value_append bits_value_bits)
  ultimately show ?thesis
    by (simp add: spec_base64url_def bits8_high6 [of ?a] bits8_high4 [of ?b])
qed

lemma spec_empty [simp]: "spec_base64url [] = []"
  by (simp add: spec_base64url_def)

lemma replace_twice:
  "replace_all (CHR ''/'') (CHR ''_'') (replace_all (CHR ''+'') (CHR ''-'') s) = map url_safe s"
  by (simp add: replace_all_def url_safe_def Let_def)

lemma alphabet_url_safe: "map url_safe base64_alphabet = base64url_alphabet"
  by (simp add: base64_alphabet_def base64url_alphabet_def url_safe_def)

lemma length_base64_alphabet: "length base64_alphabet = 64"
  by (simp add: base64_alphabet_def)

lemma url_safe_char: "n < 64 \<Longrightarrow> url_safe (base64_char n) = base64url_alphabet ! n"
  unfolding base64_char_def alphabet_url_safe [symmetric]
  by (simp add: length_base64_alphabet)

lemma url_safe_equals: "url_safe (CHR ''='') = CHR ''=''"
  by (simp add: url_safe_def)

lemma byte_bounds:
  "(of_char x :: nat) div 4 < 64"
  "(of_char x :: nat) mod 4 * 16 < 64"
  "(of_char x :: nat) mod 4 * 16 + of_char y div 16 < 64"
  "(of_char y :: nat) mod 16 * 4 < 64"
  "(of_char y :: nat) mod 16 * 4 + of_char z div 64 < 64"
  "(of_char z :: nat) mod 64 < 64"
proof -
  have x: "(of_char x :: nat) < 256" and y: "(of_char y :: nat) < 256" and z: "(of_char z :: nat) < 256"
    by simp_all
  show "(of_char x :: nat) div 4 < 64" using x by arith
  have "(of_char x :: nat) mod 4 < 4" by simp
  then show "(of_char x :: nat) mod 4 * 16 < 64" by linarith
  have "(of_char y :: nat) div 16 < 16" using y by arith
  with \<open>(of_char x :: nat) mod 4 < 4\<close>
  show "(of_char x :: nat) mod 4 * 16 + of_char y div 16 < 64" by linarith
  have m: "(of_char y :: nat) mod 16 < 16" by simp
  then show "(of_char y :: nat) mod 16 * 4 < 64" by linarith
  have "(of_char z :: nat) div 64 < 4" using z by arith
  with m show "(of_char y :: nat) mod 16 * 4 + of_char z div 64 < 64" by linarith
  show "(of_char z :: nat) mod 64 < 64" by simp
qed

lemma url_safe_base64:
  "\<exists>k. map url_safe (toString_base64 s) = spec_base64url s @ replicate k (CHR ''='')"
proof (induction s rule: toString_base64.induct)
  case 1
  then show ?case by simp
next
  case (2 a)
  have "map url_safe (toString_base64 [a]) = spec_base64url [a] @ replicate (Suc (Suc 0)) (CHR ''='')"
    by (simp add: spec_one url_safe_char byte_bounds url_safe_equals)
  then show ?case by blast
next
  case (3 a b)
  have "map url_safe (toString_base64 [a, b]) = spec_base64url [a, b] @ replicate (Suc 0) (CHR ''='')"
    by (simp add: spec_two url_safe_char byte_bounds url_safe_equals)
  then show ?case by blast
next
  case (4 a b c bs)
  then obtain k where "map url_safe (toString_base64 bs) = spec_base64url bs @ replicate k (CHR ''='')"
    by blast
  then have "map url_safe (toString_base64 (a # b # c # bs)) =
      spec_base64url (a # b # c # bs) @ replicate k (CHR ''='')"
    by (simp add: spec_three url_safe_char byte_bounds)
  then show ?case by blast
qed

lemma spec_no_equals: "CHR ''='' \<notin> set (spec_base64url s)"
proof -
  have "CHR ''='' \<notin> set base64url_alphabet"
    by (simp add: base64url_alphabet_def)
  moreover have "length base64url_alphabet = 64"
    by (simp add: base64url_alphabet_def)
  moreover have "bits_value g < 64" if "g \<in> set (sextets bs)" for g bs
    using bits_value_less [of g] sextets_length [OF that] by simp
  ultimately show ?thesis
    unfolding spec_base64url_def
    by (auto simp: image_iff)
qed

lemma strip_padding:
  assumes "CHR ''='' \<notin> set u"
  shows "strip_trailing_equals (u @ replicate k (CHR ''='')) = u"
proof -
  have "dropWhile (\<lambda>x. x = CHR ''='') (replicate k (CHR ''='') @ rev u) = dropWhile (\<lambda>x. x = CHR ''='') (rev u)"
    by (simp add: dropWhile_append)
  also have "\<dots> = rev u"
    using assms by (cases "rev u") (auto simp: dropWhile_eq_self_iff)
  finally show ?thesis
    by (simp add: strip_trailing_equals_def)
qed

lemma encodedMessage_is_base64url: "encodedMessage raw = spec_base64url raw"
proof -
  obtain k where "map url_safe (toString_base64 raw) = spec_base64url raw @ replicate k (CHR ''='')"
    using url_safe_base64 by blast
  then show ?thesis
    by (simp add: encodedMessage_def replace_twice strip_padding spec_no_equals)
qed

section \<open>The sendMessage handler\<close>

lemma sendSchema_valid:
  assumes "map_of kvs ''to'' = Some (JStr t)" and "ie t"
    and "map_of kvs ''subject'' = Some (JStr s)" and "s \<noteq> []"
    and "map_of kvs ''body'' = Some (JStr b)" and "b \<noteq> []"
  shows "handleSendMessage_schema ie (Some (JObj kvs)) = ([], Some \<lparr>to = t, subject = s, body = b\<rparr>)"
  using assms
  by (cases s; cases b)
     (simp_all add: handleSendMessage_schema_def z_object_def z_string_email_def z_string_min1_def
       z_check_def z_string_def z_both_def z_map_def)

lemma rawMessage_lines:
  "rawMessage \<lparr>to = t, subject = s, body = b\<rparr> =
     ''To: '' @ t @ [CHR 0x0D, CHR 0x0A] @
     ''Subject: '' @ s @ [CHR 0x0D, CHR 0x0A] @
     ''Content-Type: text/plain; charset='' @ [CHR 0x22] @ ''UTF-8'' @ [CHR 0x22] @ [CHR 0x0D, CHR 0x0A] @
     [CHR 0x0D, CHR 0x0A] @ b"
  by (simp add: rawMessage_def CRLF_def)

section \<open>Missing configuration\<close>

lemma notion_check_unreachable:
  "z_parse (notionEnvSchema e) = Inr nenv \<Longrightarrow> getNotionClient e = Inr (NOTION_API_KEY nenv)"
  by (simp add: z_parse_Inr_iff getNotionClient_def)

lemma gmail_missing_configuration_gives_500:
  assumes "fst (gmailEnvSchema e) \<noteq> []"
    and "map_of b ''action'' = Some (JStr ''gmail.listMessages'')" and "map_of b ''payload'' = None"
  shows "POST ie sv e (Inr (JObj b)) =
           ([], \<lparr>status = 500, json_body = ErrorBody (Message ''Missing required Gmail environment variables. Ensure GOOGLE_CLIENT_ID, GOOGLE_CLIENT_SECRET, GOOGLE_REFRESH_TOKEN, and GOOGLE_REDIRECT_URI are set.'')\<rparr>)"
proof -
  have "getGmailClient e = Inl (Error ''Missing required Gmail environment variables. Ensure GOOGLE_CLIENT_ID, GOOGLE_CLIENT_SECRET, GOOGLE_REFRESH_TOKEN, and GOOGLE_REDIRECT_URI are set.'')"
    using assms(1) by (cases "gmailEnvSchema e") (auto simp: getGmailClient_def split: list.splits option.splits)
  then have "handleListMessages sv e None = ([], Inl (Error ''Missing required Gmail environment variables. Ensure GOOGLE_CLIENT_ID, GOOGLE_CLIENT_SECRET, GOOGLE_REFRESH_TOKEN, and GOOGLE_REDIRECT_URI are set.''))"
    by (simp add: handleListMessages_def listMessages_schema_no_payload z_parse_ok)
  then show ?thesis
    using assms(2,3) by (simp add: POST_listMessages respond_def catch_error_def)
qed

lemma listPages_schema_empty:
  "handleListPages_schema (Some (JObj [])) = ([], Some \<lparr>pageSize = None, filterProperty = None, filterValue = None\<rparr>)"
  by (rule listPages_schema_valid) (simp_all add: optional_absent filter_refinement_def truthy_def)

lemma notionEnvSchema_unset:
  "notionEnvSchema Map.empty =
     ([Issue [Key ''NOTION_API_KEY''] Required, Issue [Key ''NOTION_DATABASE_ID''] Required,
       Issue [Key ''NOTION_DATA_SOURCE_ID''] Required], None)"
  by (simp add: notionEnvSchema_def z_env_min1_def z_string_min1_absent z_both_def z_map_def)

text \<open>
  Any one of the variables unset or empty makes the schema of the environment fail. For the
  Notion handlers the failure is the \<open>ZodError\<close> of \<open>notionEnvSchema.parse\<close>, answered
  with status 400.
\<close>

lemma env_min1_unset:
  "e k = None \<or> e k = Some [] \<Longrightarrow> fst (z_env_min1 e k) \<noteq> []"
  by (auto simp: z_env_min1_def z_string_min1_def z_check_def z_string_def)

lemma notionEnv_missing:
  assumes "k \<in> {''NOTION_API_KEY'', ''NOTION_DATABASE_ID'', ''NOTION_DATA_SOURCE_ID''}"
    and "e k = None \<or> e k = Some []"
  shows "fst (notionEnvSchema e) \<noteq> []"
  using assms env_min1_unset [of e k] by (auto simp: notionEnvSchema_def)

lemma gmailEnv_missing:
  assumes "k \<in> {''GOOGLE_CLIENT_ID'', ''GOOGLE_CLIENT_SECRET'', ''GOOGLE_REFRESH_TOKEN'', ''GOOGLE_REDIRECT_URI''}"
    and "e k = None \<or> e k = Some []"
  shows "fst (gmailEnvSchema e) \<noteq> []"
  using assms env_min1_unset [of e k] by (auto simp: gmailEnvSchema_def)

lemma notion_missing_configuration_is_a_ZodError:
  assumes "fst (notionEnvSchema e) \<noteq> []"
  shows "handleListPages_schema (Some (case pl of None \<Rightarrow> JObj [] | Some v \<Rightarrow> v)) = ([], Some params) \<Longrightarrow>
           respond (handleListPages sv e pl) =
             ([], \<lparr>status = 400, json_body = ErrorBody (ZodMessage (fst (notionEnvSchema e)))\<rparr>)"
    and "handleCreatePage_schema pl = ([], Some cparams) \<Longrightarrow>
           respond (handleCreatePage sv e pl) =
             ([], \<lparr>status = 400, json_body = ErrorBody (ZodMessage (fst (notionEnvSchema e)))\<rparr>)"
  using assms
  by (simp_all add: handleListPages_def handleCreatePage_def z_parse_ok z_parse_issues respond_rejected)

section \<open>The example inputs\<close>

lemma example_gmail_env_ok: "gmailEnvSchema example_env = ([], Some example_gmail_env)"
  unfolding example_gmail_env_def
  by (rule gmailEnv_ok) (simp_all add: example_env_def)

lemma example_notion_env_ok: "notionEnvSchema example_env = ([], Some example_notion_env)"
  unfolding example_notion_env_def
  by (rule notionEnv_ok) (simp_all add: example_env_def)

lemma example_getGmailClient: "getGmailClient example_env = Inr example_gmail_env"
  by (simp add: getGmailClient_def example_gmail_env_ok)

lemma example_parse_notion_env: "z_parse (notionEnvSchema example_env) = Inr example_notion_env"
  by (simp add: example_notion_env_ok z_parse_ok)

lemma not_in_range_21: "\<not> (\<exists>n::int. 1 \<le> n \<and> n \<le> 20 \<and> JNum 21 = JNum (of_int n))"
proof
  assume "\<exists>n::int. 1 \<le> n \<and> n \<le> 20 \<and> JNum 21 = JNum (of_int n)"
  then obtain n :: int where "n \<le> 20" and "(21::rat) = of_int n" by auto
  then have "(of_int n :: rat) \<le> 20" by simp
  with \<open>(21::rat) = of_int n\<close> show False by simp
qed

lemma encodedMessage_examples:
  "encodedMessage ''Hello'' = ''SGVsbG8''"
  "encodedMessage ''a'' = ''YQ''"
  "encodedMessage [CHR 0xFB, CHR 0xFF, CHR 0xFE] = ''-__-''"
  "toString_base64 ''Hello'' = ''SGVsbG8=''"
  "toString_base64 [CHR 0xFB, CHR 0xFF, CHR 0xFE] = ''+//+''"
  by (simp_all add: encodedMessage_def toString_base64.simps base64_char_def base64_alphabet_def
      replace_all_def strip_trailing_equals_def)

section \<open>The claims\<close>

text \<open>
  Claim C1 (a missing environment variable gives a descriptive configuration error and
  status 500, never 400). The Gmail handlers do so (\<open>gmail_missing_configuration_gives_500\<close>
  above). The Notion handlers do not: \<open>notionEnvSchema.parse(process.env)\<close> runs before
  \<open>getNotionClient\<close> and throws a \<open>ZodError\<close>, which the \<open>catch\<close> block of \<open>POST\<close>
  answers with status 400 and the issue list; the descriptive error of \<open>getNotionClient\<close>
  is never reached (\<open>notion_check_unreachable\<close>). The theorem evaluates \<open>POST\<close> for
  \<open>notion.listPages\<close> without a payload in an environment where no variable is set: no
  call is made, and the status is 400.
\<close>

theorem notion_missing_configuration_gives_400:
  "POST ie sv Map.empty (Inr (JObj [(''action'', JStr ''notion.listPages'')])) =
     ([], \<lparr>status = 400,
           json_body = ErrorBody (ZodMessage
             [Issue [Key ''NOTION_API_KEY''] Required, Issue [Key ''NOTION_DATABASE_ID''] Required,
              Issue [Key ''NOTION_DATA_SOURCE_ID''] Required])\<rparr>)"
proof -
  have "handleListPages sv Map.empty None =
      ([], Inl (ZodError [Issue [Key ''NOTION_API_KEY''] Required, Issue [Key ''NOTION_DATABASE_ID''] Required,
              Issue [Key ''NOTION_DATA_SOURCE_ID''] Required]))"
    by (simp add: handleListPages_def listPages_schema_empty z_parse_ok notionEnvSchema_unset z_parse_def)
  then show ?thesis
    by (simp add: POST_listPages respond_rejected)
qed

text \<open>
  Claim C2 (listMessages returns exactly the listed messages that have an identifier, in
  listing order, so at most \<open>maxResults\<close> of them). Whenever the handler returns a result,
  the pairs of id and thread id of the result are those of the listing whose id is truthy
  (present and not empty, the test \<open>!message.id\<close> of the source), in the same order;
  every entry carries the snippet fetched for its own id; the result is no longer than the
  listing, hence no longer than the \<open>maxResults\<close> sent with the list call (the payload's,
  or 10) whenever the listing itself respects that bound, as the Gmail service does. The
  handler does not truncate the listing itself.
\<close>

theorem listMessages_keeps_identified_messages_in_order:
  assumes "handleListMessages sv e pl = (tr, Inr r)"
  shows "\<exists>creds req listing out.
           take 2 tr = [NewGmailClient creds, MessagesList req] \<and>
           messages_list sv req = Inr listing \<and>
           r = Messages out \<and>
           map (\<lambda>y. (Some (o_id y), o_threadId y)) out =
             filter (\<lambda>x. truthy (fst x))
               (map (\<lambda>m. (m_id m, m_threadId m)) (case listing of None \<Rightarrow> [] | Some ms \<Rightarrow> ms)) \<and>
           (\<forall>y \<in> set out. \<exists>g. messages_get sv (o_id y) = Inr g \<and> o_snippet y = g_snippet g) \<and>
           length out \<le> length (case listing of None \<Rightarrow> [] | Some ms \<Rightarrow> ms) \<and>
           (of_nat (length (case listing of None \<Rightarrow> [] | Some ms \<Rightarrow> ms)) \<le> lr_maxResults req \<longrightarrow>
              of_nat (length out) \<le> lr_maxResults req)"
proof -
  from handleListMessages_Inr [OF assms] obtain creds req listing ds where
    t: "take 2 tr = [NewGmailClient creds, MessagesList req]"
    and l: "messages_list sv req = Inr listing"
    and p: "snd (promise_all (map (fetch_detail sv) (case listing of None \<Rightarrow> [] | Some ms \<Rightarrow> ms))) = Inr ds"
    and r: "r = Messages (filter_Boolean ds)"
    by blast
  let ?ms = "case listing of None \<Rightarrow> [] | Some ms \<Rightarrow> ms"
  have "length ds = length ?ms"
    using promise_all_Inr [OF p] by (metis length_map)
  then have len: "length (filter_Boolean ds) \<le> length ?ms"
    using length_filter_Boolean [of ds] by simp
  then have "of_nat (length ?ms) \<le> lr_maxResults req \<longrightarrow> of_nat (length (filter_Boolean ds)) \<le> lr_maxResults req"
    by (metis of_nat_le_iff order_trans)
  with t l r fan_out_positional [OF p] len show ?thesis by blast
qed

text \<open>The theorem at a concrete request, its hypotheses discharged by evaluation.\<close>

theorem listMessages_keeps_identified_messages_in_order_witness:
  "\<exists>out. snd (handleListMessages example_services example_env None) = Inr (Messages out) \<and>
         map (\<lambda>y. (Some (o_id y), o_threadId y)) out = [(Some ''m1'', Some ''t1''), (Some ''m3'', None)] \<and>
         of_nat (length out) \<le> (10::rat)"
proof -
  let ?H = "handleListMessages example_services example_env None"
  let ?out = "[\<lparr>o_id = ''m1'', o_threadId = Some ''t1'', o_snippet = Some ''m1'',
                 o_headers = [(''Subject'', ''Hello'')]\<rparr>,
               \<lparr>o_id = ''m3'', o_threadId = None, o_snippet = Some ''m3'',
                 o_headers = [(''Subject'', ''Hello'')]\<rparr>]"
  have s: "snd ?H = Inr (Messages ?out)"
    by (simp add: handleListMessages_def listMessages_schema_no_payload z_parse_ok example_getGmailClient
        example_services_def fetch_detail_def collect_headers_def)
  then have h: "?H = (fst ?H, Inr (Messages ?out))"
    by (metis prod.collapse)
  from listMessages_keeps_identified_messages_in_order [OF h]
  obtain req listing out where
    l: "messages_list example_services req = Inr listing"
    and o: "Messages ?out = Messages out"
    and m: "map (\<lambda>y. (Some (o_id y), o_threadId y)) out =
       filter (\<lambda>x. truthy (fst x))
         (map (\<lambda>m. (m_id m, m_threadId m)) (case listing of None \<Rightarrow> [] | Some ms \<Rightarrow> ms))"
    by blast
  from l have "listing = Some [\<lparr>m_id = Some ''m1'', m_threadId = Some ''t1''\<rparr>,
                               \<lparr>m_id = None, m_threadId = Some ''t2''\<rparr>,
                               \<lparr>m_id = Some ''m3'', m_threadId = None\<rparr>]"
    by (simp add: example_services_def)
  with m have "map (\<lambda>y. (Some (o_id y), o_threadId y)) out = [(Some ''m1'', Some ''t1''), (Some ''m3'', None)]"
    by (simp add: truthy_def)
  moreover from o have "out = ?out" by simp
  ultimately have "snd ?H = Inr (Messages out) \<and>
      map (\<lambda>y. (Some (o_id y), o_threadId y)) out = [(Some ''m1'', Some ''t1''), (Some ''m3'', None)] \<and>
      of_nat (length out) \<le> (10::rat)"
    using s by simp
  then show ?thesis ..
qed

text \<open>
  Claim C3 (listPages: \<open>filterProperty\<close> without \<open>filterValue\<close> is rejected; with both,
  the query carries a "contains" filter on that property). "Set" is read as the
  refinement of the source reads it: a non-empty string. With \<open>filterProperty\<close> set and
  \<open>filterValue\<close> absent the request is answered with status 400 and no call; the issue
  list holds the refinement's message at path \<open>filterValue\<close> whenever \<open>pageSize\<close> is
  absent or a number (a \<open>pageSize\<close> of another type stops the parse before the
  refinement runs, and is itself reported). With both set, a \<open>pageSize\<close> that is absent
  or an integer from 1 to 20 and the Notion variables set, the trace is the construction of
  the client and one query whose filter is \<open>{property, rich_text: {contains}}\<close>.
\<close>

theorem filter_property_requires_filter_value:
  assumes "map_of b ''action'' = Some (JStr ''notion.listPages'')"
    and "map_of b ''payload'' = Some (JObj kvs)"
    and "map_of kvs ''filterProperty'' = Some (JStr p)" and "p \<noteq> []"
  shows "(map_of kvs ''filterValue'' = None \<longrightarrow>
            (\<exists>is. POST ie sv e (Inr (JObj b)) =
                     ([], \<lparr>status = 400, json_body = ErrorBody (ZodMessage is)\<rparr>) \<and>
                  is \<noteq> [] \<and>
                  (map_of kvs ''pageSize'' = None \<or> (\<exists>r. map_of kvs ''pageSize'' = Some (JNum r)) \<longrightarrow>
                     Issue [Key ''filterValue'']
                       (Custom ''filterValue must be provided when filterProperty is set.'') \<in> set is))) \<and>
         (map_of kvs ''filterValue'' = Some (JStr v) \<and> v \<noteq> [] \<and>
          (map_of kvs ''pageSize'' = None \<or>
             (\<exists>n::int. 1 \<le> n \<and> n \<le> 20 \<and> map_of kvs ''pageSize'' = Some (JNum (of_int n)))) \<and>
          z_parse (notionEnvSchema e) = Inr nenv \<longrightarrow>
            (\<exists>size. fst (POST ie sv e (Inr (JObj b))) =
               [NewNotionClient (NOTION_API_KEY nenv),
                DataSourcesQuery \<lparr>q_data_source_id = NOTION_DATA_SOURCE_ID nenv, q_page_size = size,
                                  q_filter = Some \<lparr>f_property = p, f_contains = v\<rparr>\<rparr>]))"
proof (intro conjI impI)
  have fp: "z_optional (z_string [Key ''filterProperty'']) (map_of kvs ''filterProperty'') = ([], Some (Some p))"
    by (simp add: assms(3) optional_string_present)
  {
    assume a: "map_of kvs ''filterValue'' = None"
    let ?is = "fst (handleListPages_schema (Some (JObj kvs)))"
    have fv: "z_optional (z_string [Key ''filterValue'']) (map_of kvs ''filterValue'') = ([], Some None)"
      by (simp add: a optional_absent)
    have tp: "truthy (Some p)" and tv: "\<not> truthy None"
      using assms(4) by (simp_all add: truthy_def)
    have ne: "?is \<noteq> []"
      by (rule listPages_schema_refused(1) [OF fp fv tp tv])
    then have "handleListPages sv e (Some (JObj kvs)) = ([], Inl (ZodError ?is))"
      using handleListPages_rejects [of "Some (JObj kvs)" sv e] by simp
    then have "POST ie sv e (Inr (JObj b)) = ([], \<lparr>status = 400, json_body = ErrorBody (ZodMessage ?is)\<rparr>)"
      using assms(1,2) by (simp add: POST_listPages respond_rejected)
    moreover have "map_of kvs ''pageSize'' = None \<or> (\<exists>r. map_of kvs ''pageSize'' = Some (JNum r)) \<longrightarrow>
        Issue [Key ''filterValue''] (Custom ''filterValue must be provided when filterProperty is set.'') \<in> set ?is"
      using listPages_schema_refused(2) [OF fp fv tp tv] optional_size_snd [of kvs "''pageSize''"]
      by blast
    ultimately show "\<exists>is. POST ie sv e (Inr (JObj b)) =
                     ([], \<lparr>status = 400, json_body = ErrorBody (ZodMessage is)\<rparr>) \<and>
                  is \<noteq> [] \<and>
                  (map_of kvs ''pageSize'' = None \<or> (\<exists>r. map_of kvs ''pageSize'' = Some (JNum r)) \<longrightarrow>
                     Issue [Key ''filterValue'']
                       (Custom ''filterValue must be provided when filterProperty is set.'') \<in> set is)"
      using ne by blast
  }
  {
    assume a: "map_of kvs ''filterValue'' = Some (JStr v) \<and> v \<noteq> [] \<and>
          (map_of kvs ''pageSize'' = None \<or>
             (\<exists>n::int. 1 \<le> n \<and> n \<le> 20 \<and> map_of kvs ''pageSize'' = Some (JNum (of_int n)))) \<and>
          z_parse (notionEnvSchema e) = Inr nenv"
    have fv: "z_optional (z_string [Key ''filterValue'']) (map_of kvs ''filterValue'') = ([], Some (Some v))"
      using a by (simp add: optional_string_present)
    obtain sz where sz: "z_optional (z_number_int_positive_max20 [Key ''pageSize'']) (map_of kvs ''pageSize'') = ([], Some sz)"
      using a optional_absent optional_size_valid by (metis (no_types))
    have r: "filter_refinement \<lparr>pageSize = sz, filterProperty = Some p, filterValue = Some v\<rparr>"
      using a assms(4) by (simp add: filter_refinement_def truthy_def)
    have s: "handleListPages_schema (Some (case Some (JObj kvs) of None \<Rightarrow> JObj [] | Some x \<Rightarrow> x)) =
               ([], Some \<lparr>pageSize = sz, filterProperty = Some p, filterValue = Some v\<rparr>)"
      using listPages_schema_valid [OF sz fp fv r] by simp
    have n: "notionEnvSchema e = ([], Some nenv)"
      using a by (simp add: z_parse_Inr_iff)
    have "fst (POST ie sv e (Inr (JObj b))) = fst (handleListPages sv e (Some (JObj kvs)))"
      using assms(1,2) by (simp add: POST_listPages)
    then show "\<exists>size. fst (POST ie sv e (Inr (JObj b))) =
               [NewNotionClient (NOTION_API_KEY nenv),
                DataSourcesQuery \<lparr>q_data_source_id = NOTION_DATA_SOURCE_ID nenv, q_page_size = size,
                                  q_filter = Some \<lparr>f_property = p, f_contains = v\<rparr>\<rparr>]"
      using handleListPages_query [OF s n, of sv] a assms(4) by (simp add: truthy_def)
  }
qed

text \<open>The theorem at a concrete request, its hypotheses discharged by evaluation.\<close>

theorem filter_property_requires_filter_value_witness:
  "(\<exists>is. POST example_is_email example_services example_env
            (Inr (JObj [(''action'', JStr ''notion.listPages''),
                        (''payload'', JObj [(''filterProperty'', JStr ''Status'')])])) =
            ([], \<lparr>status = 400, json_body = ErrorBody (ZodMessage is)\<rparr>) \<and>
          is \<noteq> [] \<and>
          Issue [Key ''filterValue''] (Custom ''filterValue must be provided when filterProperty is set.'')
            \<in> set is) \<and>
   (\<exists>size. fst (POST example_is_email example_services example_env
                  (Inr (JObj [(''action'', JStr ''notion.listPages''),
                              (''payload'', JObj [(''filterProperty'', JStr ''Status''),
                                                  (''filterValue'', JStr ''Done'')])]))) =
             [NewNotionClient (NOTION_API_KEY example_notion_env),
              DataSourcesQuery \<lparr>q_data_source_id = NOTION_DATA_SOURCE_ID example_notion_env,
                                q_page_size = size,
                                q_filter = Some \<lparr>f_property = ''Status'', f_contains = ''Done''\<rparr>\<rparr>])"
  using filter_property_requires_filter_value
          [of "[(''action'', JStr ''notion.listPages''),
                (''payload'', JObj [(''filterProperty'', JStr ''Status'')])]"
              "[(''filterProperty'', JStr ''Status'')]" "''Status''"
              example_is_email example_services example_env "''Done''" example_notion_env]
        filter_property_requires_filter_value
          [of "[(''action'', JStr ''notion.listPages''),
                (''payload'', JObj [(''filterProperty'', JStr ''Status''), (''filterValue'', JStr ''Done'')])]"
              "[(''filterProperty'', JStr ''Status''), (''filterValue'', JStr ''Done'')]" "''Status''"
              example_is_email example_services example_env "''Done''" example_notion_env]
        example_parse_notion_env
  by simp

text \<open>
  Claim C4 (\<open>maxResults\<close> and \<open>pageSize\<close> are accepted exactly when they are integers
  from 1 to 20; 21 is rejected; an omitted parameter is sent as 10). For both schemas, an
  issue at the parameter's path is raised exactly when the parameter is present and is not
  such an integer; a request with such a value is answered with status 400, no call being
  made; and when validation passes with the parameter omitted (or with no payload at all)
  and the client can be built, the list call, respectively the query, is issued with 10.
\<close>

theorem size_parameter_range_and_default:
  "((\<exists>c. Issue [Key ''maxResults''] c \<in> set (fst (handleListMessages_schema (Some (JObj kvs))))) \<longleftrightarrow>
      (\<exists>v. map_of kvs ''maxResults'' = Some v \<and> \<not> (\<exists>n::int. 1 \<le> n \<and> n \<le> 20 \<and> v = JNum (of_int n)))) \<and>
   ((\<exists>c. Issue [Key ''pageSize''] c \<in> set (fst (handleListPages_schema (Some (JObj kvs))))) \<longleftrightarrow>
      (\<exists>v. map_of kvs ''pageSize'' = Some v \<and> \<not> (\<exists>n::int. 1 \<le> n \<and> n \<le> 20 \<and> v = JNum (of_int n)))) \<and>
   (map_of b ''action'' = Some (JStr ''gmail.listMessages'') \<and> map_of b ''payload'' = Some (JObj kvs) \<and>
    map_of kvs ''maxResults'' = Some v \<and> \<not> (\<exists>n::int. 1 \<le> n \<and> n \<le> 20 \<and> v = JNum (of_int n)) \<longrightarrow>
      (\<exists>is c. POST ie sv e (Inr (JObj b)) = ([], \<lparr>status = 400, json_body = ErrorBody (ZodMessage is)\<rparr>) \<and>
              Issue [Key ''maxResults''] c \<in> set is)) \<and>
   (map_of b ''action'' = Some (JStr ''notion.listPages'') \<and> map_of b ''payload'' = Some (JObj kvs) \<and>
    map_of kvs ''pageSize'' = Some v \<and> \<not> (\<exists>n::int. 1 \<le> n \<and> n \<le> 20 \<and> v = JNum (of_int n)) \<longrightarrow>
      (\<exists>is c. POST ie sv e (Inr (JObj b)) = ([], \<lparr>status = 400, json_body = ErrorBody (ZodMessage is)\<rparr>) \<and>
              Issue [Key ''pageSize''] c \<in> set is)) \<and>
   (z_parse (handleListMessages_schema pl) = Inr parsed \<and>
    (pl = None \<or> (\<exists>kvs'. pl = Some (JObj kvs') \<and> map_of kvs' ''maxResults'' = None)) \<and>
    getGmailClient e = Inr creds \<longrightarrow>
      (\<exists>req rest. fst (handleListMessages sv e pl) = NewGmailClient creds # MessagesList req # rest \<and>
                  lr_maxResults req = 10)) \<and>
   (z_parse (handleListPages_schema (Some (case pl of None \<Rightarrow> JObj [] | Some p \<Rightarrow> p))) = Inr params \<and>
    (pl = None \<or> (\<exists>kvs'. pl = Some (JObj kvs') \<and> map_of kvs' ''pageSize'' = None)) \<and>
    z_parse (notionEnvSchema e) = Inr nenv \<longrightarrow>
      (\<exists>req. fst (handleListPages sv e pl) = [NewNotionClient (NOTION_API_KEY nenv), DataSourcesQuery req] \<and>
             q_page_size req = 10))"
proof (intro conjI impI)
  show "(\<exists>c. Issue [Key ''maxResults''] c \<in> set (fst (handleListMessages_schema (Some (JObj kvs))))) \<longleftrightarrow>
      (\<exists>v. map_of kvs ''maxResults'' = Some v \<and> \<not> (\<exists>n::int. 1 \<le> n \<and> n \<le> 20 \<and> v = JNum (of_int n)))"
    by (rule maxResults_issue_iff)
  show "(\<exists>c. Issue [Key ''pageSize''] c \<in> set (fst (handleListPages_schema (Some (JObj kvs))))) \<longleftrightarrow>
      (\<exists>v. map_of kvs ''pageSize'' = Some v \<and> \<not> (\<exists>n::int. 1 \<le> n \<and> n \<le> 20 \<and> v = JNum (of_int n)))"
    by (rule pageSize_issue_iff)
next
  assume a: "map_of b ''action'' = Some (JStr ''gmail.listMessages'') \<and> map_of b ''payload'' = Some (JObj kvs) \<and>
    map_of kvs ''maxResults'' = Some v \<and> \<not> (\<exists>n::int. 1 \<le> n \<and> n \<le> 20 \<and> v = JNum (of_int n))"
  let ?is = "fst (handleListMessages_schema (Some (JObj kvs)))"
  obtain c where c: "Issue [Key ''maxResults''] c \<in> set ?is"
    using a maxResults_issue_iff [of kvs] by blast
  then have "?is \<noteq> []" by auto
  then have "POST ie sv e (Inr (JObj b)) = ([], \<lparr>status = 400, json_body = ErrorBody (ZodMessage ?is)\<rparr>)"
    using a by (simp add: POST_listMessages handleListMessages_rejects respond_rejected)
  with c show "\<exists>is c. POST ie sv e (Inr (JObj b)) = ([], \<lparr>status = 400, json_body = ErrorBody (ZodMessage is)\<rparr>) \<and>
              Issue [Key ''maxResults''] c \<in> set is" by blast
next
  assume a: "map_of b ''action'' = Some (JStr ''notion.listPages'') \<and> map_of b ''payload'' = Some (JObj kvs) \<and>
    map_of kvs ''pageSize'' = Some v \<and> \<not> (\<exists>n::int. 1 \<le> n \<and> n \<le> 20 \<and> v = JNum (of_int n))"
  let ?is = "fst (handleListPages_schema (Some (JObj kvs)))"
  obtain c where c: "Issue [Key ''pageSize''] c \<in> set ?is"
    using a pageSize_issue_iff [of kvs] by blast
  then have "?is \<noteq> []" by auto
  then have "handleListPages sv e (Some (JObj kvs)) = ([], Inl (ZodError ?is))"
    using handleListPages_rejects [of "Some (JObj kvs)" sv e] by simp
  then have "POST ie sv e (Inr (JObj b)) = ([], \<lparr>status = 400, json_body = ErrorBody (ZodMessage ?is)\<rparr>)"
    using a by (simp add: POST_listPages respond_rejected)
  with c show "\<exists>is c. POST ie sv e (Inr (JObj b)) = ([], \<lparr>status = 400, json_body = ErrorBody (ZodMessage is)\<rparr>) \<and>
              Issue [Key ''pageSize''] c \<in> set is" by blast
next
  assume a: "z_parse (handleListMessages_schema pl) = Inr parsed \<and>
    (pl = None \<or> (\<exists>kvs'. pl = Some (JObj kvs') \<and> map_of kvs' ''maxResults'' = None)) \<and>
    getGmailClient e = Inr creds"
  then have s: "handleListMessages_schema pl = ([], Some parsed)"
    and g: "gmailEnvSchema e = ([], Some creds)"
    by (simp_all add: z_parse_Inr_iff getGmailClient_Inr)
  have d: "(case parsed of None \<Rightarrow> 10 | Some q \<Rightarrow> (case maxResults q of None \<Rightarrow> 10 | Some n \<Rightarrow> n)) = (10::rat)"
  proof (cases pl)
    case None
    with s show ?thesis by (simp add: listMessages_schema_no_payload)
  next
    case (Some j)
    with a obtain kvs' where "pl = Some (JObj kvs')" "map_of kvs' ''maxResults'' = None" by auto
    with s obtain q where "parsed = Some q" "maxResults q = None"
      using listMessages_schema_omitted [of kvs' "[]" parsed] by auto
    then show ?thesis by simp
  qed
  from handleListMessages_calls [OF s g, of sv] d
  show "\<exists>req rest. fst (handleListMessages sv e pl) = NewGmailClient creds # MessagesList req # rest \<and>
                  lr_maxResults req = 10"
    by (metis list_request.select_convs(1))
next
  assume a: "z_parse (handleListPages_schema (Some (case pl of None \<Rightarrow> JObj [] | Some p \<Rightarrow> p))) = Inr params \<and>
    (pl = None \<or> (\<exists>kvs'. pl = Some (JObj kvs') \<and> map_of kvs' ''pageSize'' = None)) \<and>
    z_parse (notionEnvSchema e) = Inr nenv"
  then have s: "handleListPages_schema (Some (case pl of None \<Rightarrow> JObj [] | Some p \<Rightarrow> p)) = ([], Some params)"
    and n: "notionEnvSchema e = ([], Some nenv)"
    by (simp_all add: z_parse_Inr_iff)
  from a obtain kvs' where k: "(case pl of None \<Rightarrow> JObj [] | Some p \<Rightarrow> p) = JObj kvs'" "map_of kvs' ''pageSize'' = None"
    by (cases pl) auto
  then have "pageSize params = None"
    using s listPages_schema_omitted [of kvs' "[]" params] by simp
  with handleListPages_query [OF s n, of sv]
  show "\<exists>req. fst (handleListPages sv e pl) = [NewNotionClient (NOTION_API_KEY nenv), DataSourcesQuery req] \<and>
             q_page_size req = 10"
    by simp
qed

text \<open>The theorem at a concrete request, its hypotheses discharged by evaluation.\<close>

theorem size_parameter_range_and_default_witness:
  "(\<exists>c. Issue [Key ''maxResults''] c \<in>
          set (fst (handleListMessages_schema (Some (JObj [(''maxResults'', JNum 21)]))))) \<and>
   (\<exists>c. Issue [Key ''pageSize''] c \<in>
          set (fst (handleListPages_schema (Some (JObj [(''pageSize'', JNum 21)]))))) \<and>
   (\<exists>is c. POST example_is_email example_services example_env
              (Inr (JObj [(''action'', JStr ''gmail.listMessages''),
                          (''payload'', JObj [(''maxResults'', JNum 21)])])) =
              ([], \<lparr>status = 400, json_body = ErrorBody (ZodMessage is)\<rparr>) \<and>
            Issue [Key ''maxResults''] c \<in> set is) \<and>
   (\<exists>is c. POST example_is_email example_services example_env
              (Inr (JObj [(''action'', JStr ''notion.listPages''),
                          (''payload'', JObj [(''pageSize'', JNum 21)])])) =
              ([], \<lparr>status = 400, json_body = ErrorBody (ZodMessage is)\<rparr>) \<and>
            Issue [Key ''pageSize''] c \<in> set is) \<and>
   (\<exists>req rest. fst (handleListMessages example_services example_env None) =
                 NewGmailClient example_gmail_env # MessagesList req # rest \<and>
               lr_maxResults req = 10) \<and>
   (\<exists>req. fst (handleListPages example_services example_env None) =
            [NewNotionClient (NOTION_API_KEY example_notion_env), DataSourcesQuery req] \<and>
          q_page_size req = 10)"
proof -
  have p1: "z_parse (handleListMessages_schema None) = Inr None"
    by (simp add: listMessages_schema_no_payload z_parse_ok)
  have p2: "z_parse (handleListPages_schema (Some (case None of None \<Rightarrow> JObj [] | Some p \<Rightarrow> p))) =
              Inr \<lparr>pageSize = None, filterProperty = None, filterValue = None\<rparr>"
    by (simp add: listPages_schema_empty z_parse_ok)
  note a = size_parameter_range_and_default
      [of "[(''maxResults'', JNum 21)]"
          "[(''action'', JStr ''gmail.listMessages''), (''payload'', JObj [(''maxResults'', JNum 21)])]"
          "JNum 21" example_is_email example_services example_env None None example_gmail_env
          "\<lparr>pageSize = None, filterProperty = None, filterValue = None\<rparr>" example_notion_env]
  note b = size_parameter_range_and_default
      [of "[(''pageSize'', JNum 21)]"
          "[(''action'', JStr ''notion.listPages''), (''payload'', JObj [(''pageSize'', JNum 21)])]"
          "JNum 21" example_is_email example_services example_env None None example_gmail_env
          "\<lparr>pageSize = None, filterProperty = None, filterValue = None\<rparr>" example_notion_env]
  show ?thesis
    using a b p1 p2 not_in_range_21 example_getGmailClient example_parse_notion_env
    by simp
qed

text \<open>
  Claim C5 (a payload lacking a required field is rejected with status 400 and an error
  that names the field). For \<open>gmail.sendMessage\<close> and a payload object without \<open>to\<close>,
  \<open>subject\<close> or \<open>body\<close>, and for \<open>notion.createPage\<close> and a payload object without
  \<open>title\<close> or \<open>content\<close>, the response has status 400, no call is made, and the issue
  list of the error holds a \<open>Required\<close> issue whose path is that field.
\<close>

theorem missing_required_field_rejected:
  assumes "map_of b ''payload'' = Some (JObj kvs)" and "map_of kvs f = None"
  shows "(map_of b ''action'' = Some (JStr ''gmail.sendMessage'') \<and> f \<in> {''to'', ''subject'', ''body''} \<longrightarrow>
            (\<exists>is. POST ie sv e (Inr (JObj b)) =
                     ([], \<lparr>status = 400, json_body = ErrorBody (ZodMessage is)\<rparr>) \<and>
                  Issue [Key f] Required \<in> set is)) \<and>
         (map_of b ''action'' = Some (JStr ''notion.createPage'') \<and> f \<in> {''title'', ''content''} \<longrightarrow>
            (\<exists>is. POST ie sv e (Inr (JObj b)) =
                     ([], \<lparr>status = 400, json_body = ErrorBody (ZodMessage is)\<rparr>) \<and>
                  Issue [Key f] Required \<in> set is))"
proof (intro conjI impI)
  assume a: "map_of b ''action'' = Some (JStr ''gmail.sendMessage'') \<and> f \<in> {''to'', ''subject'', ''body''}"
  let ?is = "fst (handleSendMessage_schema ie (Some (JObj kvs)))"
  have m: "Issue [Key f] Required \<in> set ?is"
    using a assms(2) by (intro sendSchema_missing) simp_all
  then have "?is \<noteq> []" by auto
  then have "POST ie sv e (Inr (JObj b)) = ([], \<lparr>status = 400, json_body = ErrorBody (ZodMessage ?is)\<rparr>)"
    using a assms(1) by (simp add: POST_sendMessage handleSendMessage_rejects respond_rejected)
  with m show "\<exists>is. POST ie sv e (Inr (JObj b)) =
                     ([], \<lparr>status = 400, json_body = ErrorBody (ZodMessage is)\<rparr>) \<and>
                  Issue [Key f] Required \<in> set is" by blast
next
  assume a: "map_of b ''action'' = Some (JStr ''notion.createPage'') \<and> f \<in> {''title'', ''content''}"
  let ?is = "fst (handleCreatePage_schema (Some (JObj kvs)))"
  have m: "Issue [Key f] Required \<in> set ?is"
    using a assms(2) by (intro createSchema_missing) simp_all
  then have "?is \<noteq> []" by auto
  then have "POST ie sv e (Inr (JObj b)) = ([], \<lparr>status = 400, json_body = ErrorBody (ZodMessage ?is)\<rparr>)"
    using a assms(1) by (simp add: POST_createPage handleCreatePage_rejects respond_rejected)
  with m show "\<exists>is. POST ie sv e (Inr (JObj b)) =
                     ([], \<lparr>status = 400, json_body = ErrorBody (ZodMessage is)\<rparr>) \<and>
                  Issue [Key f] Required \<in> set is" by blast
qed

text \<open>The theorem at a concrete request, its hypotheses discharged by evaluation.\<close>

theorem missing_required_field_rejected_witness:
  "(\<exists>is. POST example_is_email example_services example_env
            (Inr (JObj [(''action'', JStr ''gmail.sendMessage''),
                        (''payload'', JObj [(''subject'', JStr ''Hi''), (''body'', JStr ''Hello'')])])) =
            ([], \<lparr>status = 400, json_body = ErrorBody (ZodMessage is)\<rparr>) \<and>
          Issue [Key ''to''] Required \<in> set is) \<and>
   (\<exists>is. POST example_is_email example_services example_env
            (Inr (JObj [(''action'', JStr ''notion.createPage''),
                        (''payload'', JObj [(''title'', JStr ''Notes'')])])) =
            ([], \<lparr>status = 400, json_body = ErrorBody (ZodMessage is)\<rparr>) \<and>
          Issue [Key ''content''] Required \<in> set is)"
  using missing_required_field_rejected
          [of "[(''action'', JStr ''gmail.sendMessage''),
                (''payload'', JObj [(''subject'', JStr ''Hi''), (''body'', JStr ''Hello'')])]"
              "[(''subject'', JStr ''Hi''), (''body'', JStr ''Hello'')]" "''to''"
              example_is_email example_services example_env]
        missing_required_field_rejected
          [of "[(''action'', JStr ''notion.createPage''), (''payload'', JObj [(''title'', JStr ''Notes'')])]"
              "[(''title'', JStr ''Notes'')]" "''content''"
              example_is_email example_services example_env]
  by simp

text \<open>
  Claim C6 (sendMessage with a \<open>to\<close> that is not a valid email address is rejected before
  any call). Whatever the email pattern \<open>is_email\<close> is: when \<open>to\<close> is a string it
  refuses, or is not a string at all, the handler throws a \<open>ZodError\<close> with an issue at
  path \<open>to\<close>, the response has status 400, and the trace is empty: neither the client
  was constructed nor anything sent.
\<close>

theorem invalid_to_rejected_before_any_call:
  assumes "map_of b ''action'' = Some (JStr ''gmail.sendMessage'')"
    and "map_of b ''payload'' = Some (JObj kvs)"
    and "map_of kvs ''to'' = Some v"
    and "\<forall>t. v = JStr t \<longrightarrow> \<not> is_email t"
  shows "\<exists>is c. handleSendMessage is_email sv e (Some (JObj kvs)) = ([], Inl (ZodError is)) \<and>
           POST is_email sv e (Inr (JObj b)) =
             ([], \<lparr>status = 400, json_body = ErrorBody (ZodMessage is)\<rparr>) \<and>
           Issue [Key ''to''] c \<in> set is \<and> c \<in> {InvalidEmail, InvalidType}"
proof -
  let ?is = "fst (handleSendMessage_schema is_email (Some (JObj kvs)))"
  obtain c where c: "fst (z_string_email is_email [Key ''to''] (Some v)) = [Issue [Key ''to''] c]"
    "c \<in> {InvalidEmail, InvalidType}"
    using z_string_email_invalid [OF assms(4)] by blast
  then have m: "Issue [Key ''to''] c \<in> set ?is"
    by (simp add: sendSchema_issues assms(3))
  then have ne: "?is \<noteq> []" by auto
  have h: "handleSendMessage is_email sv e (Some (JObj kvs)) = ([], Inl (ZodError ?is))"
    using ne by (rule handleSendMessage_rejects)
  have "POST is_email sv e (Inr (JObj b)) = ([], \<lparr>status = 400, json_body = ErrorBody (ZodMessage ?is)\<rparr>)"
    using assms(1,2) h by (simp add: POST_sendMessage respond_rejected)
  with h m c(2) show ?thesis by blast
qed

text \<open>The theorem at a concrete request, its hypotheses discharged by evaluation.\<close>

theorem invalid_to_rejected_before_any_call_witness:
  "\<exists>is c. handleSendMessage example_is_email example_services example_env
              (Some (JObj [(''to'', JStr ''nobody''), (''subject'', JStr ''Hi''), (''body'', JStr ''Hello'')])) =
              ([], Inl (ZodError is)) \<and>
           POST example_is_email example_services example_env
             (Inr (JObj [(''action'', JStr ''gmail.sendMessage''),
                         (''payload'', JObj [(''to'', JStr ''nobody''), (''subject'', JStr ''Hi''),
                                             (''body'', JStr ''Hello'')])])) =
             ([], \<lparr>status = 400, json_body = ErrorBody (ZodMessage is)\<rparr>) \<and>
           Issue [Key ''to''] c \<in> set is \<and> c \<in> {InvalidEmail, InvalidType}"
  using invalid_to_rejected_before_any_call
          [of "[(''action'', JStr ''gmail.sendMessage''),
                (''payload'', JObj [(''to'', JStr ''nobody''), (''subject'', JStr ''Hi''),
                                    (''body'', JStr ''Hello'')])]"
              "[(''to'', JStr ''nobody''), (''subject'', JStr ''Hi''), (''body'', JStr ''Hello'')]"
              "JStr ''nobody''" example_is_email example_services example_env]
  by (simp add: example_is_email_def)

text \<open>
  Claim C7 (createPage returns \<open>pageId\<close> and a \<open>url\<close> that is a string or null).
  Whenever the handler returns a result, it made one \<open>pages.create\<close> call, the result is
  \<open>{pageId, url}\<close> with the id of the response, and \<open>url\<close> is the string of the
  response when the response has the key and \<open>null\<close> when it has not.
\<close>

theorem createPage_returns_pageId_and_url:
  assumes "handleCreatePage sv e pl = (tr, Inr r)"
  shows "\<exists>key req resp.
           tr = [NewNotionClient key, PagesCreate req] \<and> pages_create sv req = Inr resp \<and>
           r = Created (cr_id resp) (case cr_url resp of None \<Rightarrow> JNull | Some u \<Rightarrow> JStr u)"
  using assms
  by (auto simp: handleCreatePage_def Let_def split: sum.splits)

text \<open>The theorem at a concrete request, its hypotheses discharged by evaluation.\<close>

theorem createPage_returns_pageId_and_url_witness:
  "\<exists>key req resp.
     handleCreatePage example_services example_env
       (Some (JObj [(''title'', JStr ''Notes''), (''content'', JStr ''Remember the milk'')])) =
       ([NewNotionClient key, PagesCreate req],
        Inr (Created (cr_id resp) (case cr_url resp of None \<Rightarrow> JNull | Some u \<Rightarrow> JStr u))) \<and>
     pages_create example_services req = Inr resp"
proof -
  let ?pl = "Some (JObj [(''title'', JStr ''Notes''), (''content'', JStr ''Remember the milk'')])"
  have s: "handleCreatePage_schema ?pl = ([], Some \<lparr>title = ''Notes'', content = ''Remember the milk''\<rparr>)"
    by (simp add: handleCreatePage_schema_def z_object_def z_string_min1_def z_check_def z_string_def
        z_both_def z_map_def)
  have c: "pages_create example_services
             \<lparr>c_database_id = NOTION_DATABASE_ID example_notion_env,
              c_title = title \<lparr>title = ''Notes'', content = ''Remember the milk''\<rparr>,
              c_paragraph = content \<lparr>title = ''Notes'', content = ''Remember the milk''\<rparr>\<rparr> =
           Inr \<lparr>cr_id = ''page-1'', cr_url = Some ''https://notion.example/page-1''\<rparr>"
    by (simp add: example_services_def)
  note h = handleCreatePage_succeeds [OF s example_notion_env_ok c]
  from createPage_returns_pageId_and_url [OF h] h show ?thesis
    by auto
qed

text \<open>
  Claim C8 (an unsupported action tag is rejected with status 400, whatever the payload).
  When \<open>action\<close> is absent, not a string, or a string other than the four tags, the
  response has status 400, no handler runs, and the first issue is at path \<open>action\<close>.
  Every request with the same \<open>action\<close> entry gets the same status and the same first
  issue, whatever its payload, the environment and the services; when the payload is absent
  or an object, that issue is the whole list, so the response is the same for all such
  payloads. (A payload that is not an object adds its own issue to the list.)
\<close>

theorem unsupported_action_rejected_uniformly:
  assumes "\<forall>a. map_of b ''action'' = Some (JStr a) \<longrightarrow> a \<notin> set actions"
  shows "\<exists>c rest.
           POST ie sv e (Inr (JObj b)) =
             ([], \<lparr>status = 400, json_body = ErrorBody (ZodMessage (Issue [Key ''action''] c # rest))\<rparr>) \<and>
           (\<forall>b' ie' sv' e'. map_of b' ''action'' = map_of b ''action'' \<longrightarrow>
              (\<exists>rest'. POST ie' sv' e' (Inr (JObj b')) =
                 ([], \<lparr>status = 400, json_body = ErrorBody (ZodMessage (Issue [Key ''action''] c # rest'))\<rparr>) \<and>
                 ((map_of b' ''payload'' = None \<or> (\<exists>kvs. map_of b' ''payload'' = Some (JObj kvs))) \<longrightarrow> rest' = [])))"
proof -
  obtain c where c: "z_enum actions [Key ''action''] (map_of b ''action'') = ([Issue [Key ''action''] c], None)"
    using requestSchema_unsupported [OF assms] by blast
  have gen: "\<exists>rest'. POST ie' sv' e' (Inr (JObj b')) =
                 ([], \<lparr>status = 400, json_body = ErrorBody (ZodMessage (Issue [Key ''action''] c # rest'))\<rparr>) \<and>
                 ((map_of b' ''payload'' = None \<or> (\<exists>kvs. map_of b' ''payload'' = Some (JObj kvs))) \<longrightarrow> rest' = [])"
    if "map_of b' ''action'' = map_of b ''action''" for b' ie' sv' e'
  proof -
    let ?rest = "fst (z_optional (z_record_any [Key ''payload'']) (map_of b' ''payload''))"
    have f: "fst (requestSchema (Some (JObj b'))) = Issue [Key ''action''] c # ?rest"
      using c that by (simp add: requestSchema_def z_object_def)
    then have "POST ie' sv' e' (Inr (JObj b')) =
        ([], \<lparr>status = 400, json_body = ErrorBody (ZodMessage (Issue [Key ''action''] c # ?rest))\<rparr>)"
      using POST_rejects_envelope [of "JObj b'" ie' sv' e'] by simp
    moreover have "(map_of b' ''payload'' = None \<or> (\<exists>kvs. map_of b' ''payload'' = Some (JObj kvs))) \<longrightarrow> ?rest = []"
      using record_payload_no_issue by blast
    ultimately show ?thesis by blast
  qed
  from gen [of b ie sv e] gen show ?thesis by blast
qed

text \<open>The theorem at a concrete request, its hypotheses discharged by evaluation.\<close>

theorem unsupported_action_rejected_uniformly_witness:
  "\<exists>c rest rest'.
     POST example_is_email example_services example_env
       (Inr (JObj [(''action'', JStr ''gmail.deleteAll''), (''payload'', JNum 7)])) =
       ([], \<lparr>status = 400, json_body = ErrorBody (ZodMessage (Issue [Key ''action''] c # rest))\<rparr>) \<and>
     POST example_is_email example_services Map.empty
       (Inr (JObj [(''action'', JStr ''gmail.deleteAll''), (''payload'', JObj [(''to'', JStr ''x'')])])) =
       ([], \<lparr>status = 400, json_body = ErrorBody (ZodMessage (Issue [Key ''action''] c # rest'))\<rparr>) \<and>
     rest' = []"
proof -
  have "\<forall>a. map_of [(''action'', JStr ''gmail.deleteAll''), (''payload'', JNum 7)] ''action'' = Some (JStr a)
          \<longrightarrow> a \<notin> set actions"
    by (simp add: actions_def)
  from unsupported_action_rejected_uniformly [OF this, of example_is_email example_services example_env]
  obtain c rest where
    1: "POST example_is_email example_services example_env
          (Inr (JObj [(''action'', JStr ''gmail.deleteAll''), (''payload'', JNum 7)])) =
          ([], \<lparr>status = 400, json_body = ErrorBody (ZodMessage (Issue [Key ''action''] c # rest))\<rparr>)"
    and 2: "\<And>b' ie' sv' e'.
          map_of b' ''action'' = map_of [(''action'', JStr ''gmail.deleteAll''), (''payload'', JNum 7)] ''action'' \<Longrightarrow>
          \<exists>rest'. POST ie' sv' e' (Inr (JObj b')) =
                 ([], \<lparr>status = 400, json_body = ErrorBody (ZodMessage (Issue [Key ''action''] c # rest'))\<rparr>) \<and>
                 ((map_of b' ''payload'' = None \<or> (\<exists>kvs. map_of b' ''payload'' = Some (JObj kvs))) \<longrightarrow> rest' = [])"
    by blast
  from 2 [of "[(''action'', JStr ''gmail.deleteAll''), (''payload'', JObj [(''to'', JStr ''x'')])]"
            example_is_email example_services Map.empty]
  obtain rest' where
    "POST example_is_email example_services Map.empty
       (Inr (JObj [(''action'', JStr ''gmail.deleteAll''), (''payload'', JObj [(''to'', JStr ''x'')])])) =
       ([], \<lparr>status = 400, json_body = ErrorBody (ZodMessage (Issue [Key ''action''] c # rest'))\<rparr>)"
    and "rest' = []"
    by auto
  with 1 show ?thesis by blast
qed

text \<open>
  Claim C9 (sendMessage submits the To, Subject and Content-Type headers, a blank line and
  the body, in URL-safe base64 without padding, and answers \<open>{status: "sent"}\<close>). For a
  valid payload and a client that can be built, the trace is the construction of the client
  and one send whose \<open>raw\<close> is \<open>spec_base64url\<close> of the message: the encoding of
  RFC 4648 with the URL-safe alphabet and no padding, which the pipeline of the source
  (standard base64, \<open>+\<close> to \<open>-\<close>, \<open>/\<close> to \<open>_\<close>, trailing \<open>=\<close> removed) is shown to
  compute (\<open>encodedMessage_is_base64url\<close>). Whatever the send call resolves with, the
  handler returns \<open>{status: "sent"}\<close>.
\<close>

theorem sendMessage_submits_base64url_and_acknowledges:
  assumes "map_of kvs ''to'' = Some (JStr t)" and "is_email t"
    and "map_of kvs ''subject'' = Some (JStr s)" and "s \<noteq> []"
    and "map_of kvs ''body'' = Some (JStr b)" and "b \<noteq> []"
    and "getGmailClient e = Inr creds"
    and "raw = spec_base64url
          (''To: '' @ t @ [CHR 0x0D, CHR 0x0A] @
           ''Subject: '' @ s @ [CHR 0x0D, CHR 0x0A] @
           ''Content-Type: text/plain; charset='' @ [CHR 0x22] @ ''UTF-8'' @ [CHR 0x22] @ [CHR 0x0D, CHR 0x0A] @
           [CHR 0x0D, CHR 0x0A] @ b)"
  shows "fst (handleSendMessage is_email sv e (Some (JObj kvs))) = [NewGmailClient creds, MessagesSend raw] \<and>
         (\<forall>resp. messages_send sv raw = Inr resp \<longrightarrow>
            snd (handleSendMessage is_email sv e (Some (JObj kvs))) = Inr (Status ''sent''))"
proof -
  have s: "handleSendMessage_schema is_email (Some (JObj kvs)) = ([], Some \<lparr>to = t, subject = s, body = b\<rparr>)"
    using assms(1-6) by (rule sendSchema_valid [where ie = is_email])
  have r: "encodedMessage (rawMessage \<lparr>to = t, subject = s, body = b\<rparr>) = raw"
    unfolding encodedMessage_is_base64url rawMessage_lines assms(8) ..
  show ?thesis
    using assms(7) by (auto simp: handleSendMessage_def s z_parse_ok r Let_def split: sum.splits)
qed

text \<open>The theorem at a concrete request, its hypotheses discharged by evaluation.\<close>

theorem sendMessage_submits_base64url_and_acknowledges_witness:
  "fst (handleSendMessage example_is_email example_services example_env
          (Some (JObj [(''to'', JStr ''a@b.c''), (''subject'', JStr ''Hi''), (''body'', JStr ''Hello'')]))) =
     [NewGmailClient example_gmail_env,
      MessagesSend (spec_base64url
        (''To: a@b.c'' @ [CHR 0x0D, CHR 0x0A] @ ''Subject: Hi'' @ [CHR 0x0D, CHR 0x0A] @
         ''Content-Type: text/plain; charset='' @ [CHR 0x22] @ ''UTF-8'' @ [CHR 0x22] @ [CHR 0x0D, CHR 0x0A] @
         [CHR 0x0D, CHR 0x0A] @ ''Hello''))] \<and>
   snd (handleSendMessage example_is_email example_services example_env
          (Some (JObj [(''to'', JStr ''a@b.c''), (''subject'', JStr ''Hi''), (''body'', JStr ''Hello'')]))) =
     Inr (Status ''sent'')"
  using sendMessage_submits_base64url_and_acknowledges
          [of "[(''to'', JStr ''a@b.c''), (''subject'', JStr ''Hi''), (''body'', JStr ''Hello'')]"
              "''a@b.c''" example_is_email "''Hi''" "''Hello''" example_env example_gmail_env _
              example_services, OF _ _ _ _ _ _ example_getGmailClient refl]
  by (simp add: example_is_email_def example_services_def)

text \<open>
  Claim C10 (listPages: with \<open>filterProperty\<close> absent or empty, any \<open>filterValue\<close> passes
  validation and the query has no filter). With \<open>filterProperty\<close> absent or the empty
  string, \<open>filterValue\<close> absent or any string, and \<open>pageSize\<close> absent or an integer from
  1 to 20, the schema accepts the payload; when the Notion variables are set, the trace is
  the construction of the client and one query whose filter is undefined.
\<close>

theorem stray_filter_value_ignored:
  assumes "map_of kvs ''filterProperty'' = None \<or> map_of kvs ''filterProperty'' = Some (JStr [])"
    and "map_of kvs ''filterValue'' = None \<or> (\<exists>v. map_of kvs ''filterValue'' = Some (JStr v))"
    and "map_of kvs ''pageSize'' = None \<or>
           (\<exists>n::int. 1 \<le> n \<and> n \<le> 20 \<and> map_of kvs ''pageSize'' = Some (JNum (of_int n)))"
  shows "(\<exists>params. z_parse (handleListPages_schema (Some (JObj kvs))) = Inr params) \<and>
         (z_parse (notionEnvSchema e) = Inr nenv \<longrightarrow>
            (\<exists>size. fst (handleListPages sv e (Some (JObj kvs))) =
               [NewNotionClient (NOTION_API_KEY nenv),
                DataSourcesQuery \<lparr>q_data_source_id = NOTION_DATA_SOURCE_ID nenv, q_page_size = size,
                                  q_filter = None\<rparr>]))"
proof -
  obtain fp where fp: "z_optional (z_string [Key ''filterProperty'']) (map_of kvs ''filterProperty'') = ([], Some fp)"
    and nt: "\<not> truthy fp"
    using assms(1) by (auto simp: optional_absent optional_string_present truthy_def)
  obtain fv where fv: "z_optional (z_string [Key ''filterValue'']) (map_of kvs ''filterValue'') = ([], Some fv)"
    using assms(2) by (auto simp: optional_absent optional_string_present)
  obtain sz where sz: "z_optional (z_number_int_positive_max20 [Key ''pageSize'']) (map_of kvs ''pageSize'') = ([], Some sz)"
    using assms(3) optional_absent optional_size_valid by (metis (no_types))
  have r: "filter_refinement \<lparr>pageSize = sz, filterProperty = fp, filterValue = fv\<rparr>"
    using nt by (simp add: filter_refinement_def)
  have s: "handleListPages_schema (Some (JObj kvs)) =
             ([], Some \<lparr>pageSize = sz, filterProperty = fp, filterValue = fv\<rparr>)"
    by (rule listPages_schema_valid [OF sz fp fv r])
  then have s': "handleListPages_schema (Some (case Some (JObj kvs) of None \<Rightarrow> JObj [] | Some x \<Rightarrow> x)) =
             ([], Some \<lparr>pageSize = sz, filterProperty = fp, filterValue = fv\<rparr>)"
    by simp
  have "\<exists>params. z_parse (handleListPages_schema (Some (JObj kvs))) = Inr params"
    using s by (simp add: z_parse_ok)
  moreover have "\<exists>size. fst (handleListPages sv e (Some (JObj kvs))) =
               [NewNotionClient (NOTION_API_KEY nenv),
                DataSourcesQuery \<lparr>q_data_source_id = NOTION_DATA_SOURCE_ID nenv, q_page_size = size,
                                  q_filter = None\<rparr>]"
    if "z_parse (notionEnvSchema e) = Inr nenv"
  proof -
    have n: "notionEnvSchema e = ([], Some nenv)"
      using that by (simp add: z_parse_Inr_iff)
    show ?thesis
      using handleListPages_query [OF s' n, of sv] nt by simp
  qed
  ultimately show ?thesis by blast
qed

text \<open>The theorem at a concrete request, its hypotheses discharged by evaluation.\<close>

theorem stray_filter_value_ignored_witness:
  "(\<exists>params. z_parse (handleListPages_schema (Some (JObj [(''filterValue'', JStr ''stray'')]))) = Inr params) \<and>
   (\<exists>size. fst (handleListPages example_services example_env (Some (JObj [(''filterValue'', JStr ''stray'')]))) =
             [NewNotionClient (NOTION_API_KEY example_notion_env),
              DataSourcesQuery \<lparr>q_data_source_id = NOTION_DATA_SOURCE_ID example_notion_env,
                                q_page_size = size, q_filter = None\<rparr>])"
  using stray_filter_value_ignored
          [of "[(''filterValue'', JStr ''stray'')]" example_env example_notion_env example_services]
        example_parse_notion_env
  by simp

end
